theory Spec2Isabelle
  imports Main "HOL-Library.AList"
begin

section \<open>Python values\<close>

text \<open>
  The module \<^verbatim>\<open>library/errata_tool_release.py\<close> works on parsed JSON and on the
  Ansible parameter dictionary. Both are Python values built from \<^verbatim>\<open>None\<close>,
  booleans, integers, strings, lists and dictionaries. A dictionary is an association
  list, so that the insertion order Python keeps is visible; a key of a dictionary is a
  value itself (parsed JSON has string keys, \<^verbatim>\<open>dict.update\<close> with a list of pairs can
  bring any hashable key). JSON numbers are integers here.
\<close>

datatype val =
    VNone
  | VBool bool
  | VInt int
  | VStr string
  | VList "val list"
  | VDict "(val \<times> val) list"

type_synonym pydict = "(val \<times> val) list"

text \<open>
  The Ansible parameter dictionary and the dictionaries the module derives from it
  (the desired parameters, the payload of a write) have string keys only: the names of
  the module's arguments and the literal keys of \<^verbatim>\<open>api_data\<close>. \<open>to_val\<close> is such a
  dictionary as a value.
\<close>

type_synonym dict = "(string \<times> val) list"

definition to_val :: "dict \<Rightarrow> val" where
  "to_val d = VDict (map (\<lambda>(k, v). (VStr k, v)) d)"

text \<open>
  \<^verbatim>\<open>template % arg\<close>: the format template and its arguments. The rendered text is the
  template with each argument put in by Python's \<^verbatim>\<open>str()\<close>; the model keeps the two
  parts apart. A plain string literal has no argument.
\<close>

datatype fstring = Fmt string "val list"

text \<open>A Difference of the diff engine: \<^verbatim>\<open>(key, current, new)\<close>.\<close>

type_synonym difference = "string \<times> val \<times> val"

datatype error =
    HTTPError int fstring
  | JSONDecodeError
  | KeyError val
  | IndexError
  | TypeError
  | ValueError fstring
  | ValueError_json val
  | UserNotFoundError val
  | ProgramManagerNotFoundError val

section \<open>The remote client\<close>

record response =
  status_code :: int
  json :: "val option"

text \<open>
  One call made through the client. \<open>GET\<close>, \<open>POST\<close> and \<open>PUT\<close> are the three methods of
  the client that the module calls itself. \<open>LOOKUP\<close> stands for a read made inside
  \<^verbatim>\<open>common_errata_tool\<close> (the user lookup and the rule-set scraper), whose request
  path is not part of this module.
\<close>

datatype call =
    GET fstring dict
  | POST fstring val
  | PUT fstring val
  | LOOKUP string val

fun is_write :: "call \<Rightarrow> bool" where
  "is_write (POST _ _) = True"
| "is_write (PUT _ _) = True"
| "is_write _ = False"

text \<open>
  The remote service as one invocation sees it: the response to each request.
  \<open>users\<close> and \<open>rule_sets\<close> are the two directories that
  \<^verbatim>\<open>common_errata_tool.user_id\<close> and \<^verbatim>\<open>common_errata_tool.WorkflowRulesScraper\<close>
  read (see \<open>user_id\<close> and \<open>rule_set_id\<close> below).
\<close>

record client =
  get :: "fstring \<Rightarrow> dict \<Rightarrow> response"
  post :: "fstring \<Rightarrow> val \<Rightarrow> response"
  put :: "fstring \<Rightarrow> val \<Rightarrow> response"
  users :: "val \<Rightarrow> val option"
  rule_sets :: "val \<Rightarrow> int option"

text \<open>
  A computation returns a value or raises, and records the calls it made through the
  client, in order.
\<close>

type_synonym 'a io = "(error + 'a) \<times> call list"

definition io_return :: "'a \<Rightarrow> 'a io" where
  "io_return x = (Inr x, [])"

definition raise :: "error \<Rightarrow> 'a io" where
  "raise e = (Inl e, [])"

definition io_bind :: "'a io \<Rightarrow> ('a \<Rightarrow> 'b io) \<Rightarrow> 'b io" where
  "io_bind m f =
     (case m of
        (Inl e, l) \<Rightarrow> (Inl e, l)
      | (Inr x, l) \<Rightarrow> (case f x of (r, l') \<Rightarrow> (r, l @ l')))"

definition lift :: "error + 'a \<Rightarrow> 'a io" where
  "lift r = (r, [])"

fun io_map :: "('a \<Rightarrow> 'b io) \<Rightarrow> 'a list \<Rightarrow> 'b list io" where
  "io_map f [] = io_return []"
| "io_map f (x # xs) =
     io_bind (f x) (\<lambda>y. io_bind (io_map f xs) (\<lambda>ys. io_return (y # ys)))"

definition client_get :: "client \<Rightarrow> fstring \<Rightarrow> dict \<Rightarrow> response io" where
  "client_get c path params = (Inr (get c path params), [GET path params])"

definition client_post :: "client \<Rightarrow> fstring \<Rightarrow> val \<Rightarrow> response io" where
  "client_post c path data = (Inr (post c path data), [POST path data])"

definition client_put :: "client \<Rightarrow> fstring \<Rightarrow> val \<Rightarrow> response io" where
  "client_put c path data = (Inr (put c path data), [PUT path data])"

text \<open>
  \<^verbatim>\<open>response.raise_for_status()\<close> of the requests library: a 4xx or 5xx status raises
  an HTTPError whose message names the status and the requested URL.
\<close>

definition raise_for_status :: "fstring \<Rightarrow> response \<Rightarrow> unit io" where
  "raise_for_status url r =
     (if 400 \<le> status_code r \<and> status_code r < 600
      then raise (HTTPError (status_code r) url)
      else io_return ())"

definition response_json :: "response \<Rightarrow> val io" where
  "response_json r = (case json r of None \<Rightarrow> raise JSONDecodeError | Some v \<Rightarrow> io_return v)"

section \<open>Python built-in operations\<close>

text \<open>Truth value of an object, as \<^verbatim>\<open>if x:\<close> tests it.\<close>

fun truthy :: "val \<Rightarrow> bool" where
  "truthy VNone = False"
| "truthy (VBool b) = b"
| "truthy (VInt i) = (i \<noteq> 0)"
| "truthy (VStr s) = (s \<noteq> [])"
| "truthy (VList xs) = (xs \<noteq> [])"
| "truthy (VDict kvs) = (kvs \<noteq> [])"

text \<open>\<^verbatim>\<open>d[key]\<close> on a dictionary with string keys.\<close>

definition dict_getitem :: "dict \<Rightarrow> string \<Rightarrow> val io" where
  "dict_getitem d k =
     (case map_of d k of None \<Rightarrow> raise (KeyError (VStr k)) | Some v \<Rightarrow> io_return v)"

text \<open>A key of a dictionary has to be hashable: a list and a dictionary are not.\<close>

fun hashable :: "val \<Rightarrow> bool" where
  "hashable (VList xs) = False"
| "hashable (VDict d) = False"
| "hashable _ = True"

text \<open>
  Two keys are one key when they are equal, and \<^verbatim>\<open>True\<close> equals 1, \<^verbatim>\<open>False\<close> equals 0.
\<close>

fun key_int :: "val \<Rightarrow> int option" where
  "key_int (VBool b) = Some (if b then 1 else 0)"
| "key_int (VInt i) = Some i"
| "key_int _ = None"

definition key_eq :: "val \<Rightarrow> val \<Rightarrow> bool" where
  "key_eq a b = (a = b \<or> (key_int a \<noteq> None \<and> key_int a = key_int b))"

text \<open>The value stored under a key of a dictionary value.\<close>

fun py_lookup :: "pydict \<Rightarrow> val \<Rightarrow> val option" where
  "py_lookup [] k = None"
| "py_lookup ((k', v) # d) k = (if key_eq k' k then Some v else py_lookup d k)"

text \<open>
  \<^verbatim>\<open>d[key] = value\<close> on a dictionary value: an existing key keeps its place (and its
  key object), a new key goes last.
\<close>

fun py_setitem :: "val \<Rightarrow> val \<Rightarrow> pydict \<Rightarrow> pydict" where
  "py_setitem k v [] = [(k, v)]"
| "py_setitem k v ((k', v') # d) =
     (if key_eq k' k then (k', v) # d else (k', v') # py_setitem k v d)"

definition py_delitem :: "val \<Rightarrow> pydict \<Rightarrow> pydict" where
  "py_delitem k d = filter (\<lambda>(k', v). \<not> key_eq k' k) d"

text \<open>\<^verbatim>\<open>d[key]\<close> on a dictionary value, with a string key.\<close>

definition py_getitem :: "pydict \<Rightarrow> string \<Rightarrow> val io" where
  "py_getitem d k =
     (case py_lookup d (VStr k) of
        None \<Rightarrow> raise (KeyError (VStr k))
      | Some v \<Rightarrow> io_return v)"

text \<open>\<^verbatim>\<open>x[key]\<close> with a string key on any value: only a dictionary accepts it.\<close>

fun getitem :: "val \<Rightarrow> string \<Rightarrow> val io" where
  "getitem (VDict d) k = py_getitem d k"
| "getitem _ k = raise TypeError"

text \<open>\<^verbatim>\<open>x[0]\<close>.\<close>

fun getitem0 :: "val \<Rightarrow> val io" where
  "getitem0 (VList []) = raise IndexError"
| "getitem0 (VList (x # xs)) = io_return x"
| "getitem0 (VStr []) = raise IndexError"
| "getitem0 (VStr (ch # s)) = io_return (VStr [ch])"
| "getitem0 (VDict d) =
     (case py_lookup d (VInt 0) of
        None \<Rightarrow> raise (KeyError (VInt 0))
      | Some v \<Rightarrow> io_return v)"
| "getitem0 _ = raise TypeError"

text \<open>\<^verbatim>\<open>len(x)\<close>.\<close>

fun len :: "val \<Rightarrow> nat io" where
  "len (VList xs) = io_return (length xs)"
| "len (VStr s) = io_return (length s)"
| "len (VDict d) = io_return (length d)"
| "len _ = raise TypeError"

text \<open>\<^verbatim>\<open>x[:10]\<close>.\<close>

fun slice10 :: "val \<Rightarrow> val io" where
  "slice10 (VStr s) = io_return (VStr (take 10 s))"
| "slice10 (VList xs) = io_return (VList (take 10 xs))"
| "slice10 _ = raise TypeError"

text \<open>
  The elements a \<^verbatim>\<open>for\<close> loop (or \<^verbatim>\<open>join\<close>) visits: of a dictionary, its keys.
\<close>

fun py_iter :: "val \<Rightarrow> val list io" where
  "py_iter (VList xs) = io_return xs"
| "py_iter (VStr s) = io_return (map (\<lambda>ch. VStr [ch]) s)"
| "py_iter (VDict d) = io_return (map fst d)"
| "py_iter _ = raise TypeError"

text \<open>\<^verbatim>\<open>d[key] = value\<close>: an existing key keeps its place, a new key goes last.\<close>

definition dict_set :: "string \<Rightarrow> val \<Rightarrow> dict \<Rightarrow> dict" where
  "dict_set k v d = AList.update k v d"

text \<open>The same on a dictionary value, with a string key.\<close>

definition py_set :: "string \<Rightarrow> val \<Rightarrow> pydict \<Rightarrow> pydict" where
  "py_set k v d = py_setitem (VStr k) v d"

text \<open>
  One element of the sequence given to \<^verbatim>\<open>dict.update\<close>: it has to be iterable and to
  have two items, the key and the value.
\<close>

definition update_item :: "nat \<Rightarrow> val \<Rightarrow> (val \<times> val) io" where
  "update_item i item =
     io_bind (py_iter item) (\<lambda>xs.
       case xs of
         [k, v] \<Rightarrow> io_return (k, v)
       | _ \<Rightarrow> raise (ValueError
                (Fmt ''dictionary update sequence element #%d has length %d; 2 is required''
                   [VInt (int i), VInt (int (length xs))])))"

fun py_update_seq :: "nat \<Rightarrow> pydict \<Rightarrow> val list \<Rightarrow> pydict io" where
  "py_update_seq i d [] = io_return d"
| "py_update_seq i d (item # items) =
     io_bind (update_item i item) (\<lambda>(k, v).
       if hashable k then py_update_seq (Suc i) (py_setitem k v d) items
       else raise TypeError)"

text \<open>
  \<^verbatim>\<open>d.update(other)\<close>: a dictionary \<^verbatim>\<open>other\<close> gives its items; any other iterable is
  read as a sequence of key/value pairs (so an empty list or an empty string changes
  nothing); a value that cannot be iterated raises.
\<close>

definition py_update :: "pydict \<Rightarrow> val \<Rightarrow> pydict io" where
  "py_update d other =
     (case other of
        VDict a \<Rightarrow> io_return (fold (\<lambda>(k, v). py_setitem k v) a d)
      | _ \<Rightarrow> io_bind (py_iter other) (py_update_seq 0 d))"

text \<open>\<^verbatim>\<open>d.pop(key)\<close>: the value and the dictionary without the key.\<close>

definition dict_pop :: "dict \<Rightarrow> string \<Rightarrow> (val \<times> dict) io" where
  "dict_pop d k =
     (case map_of d k of
        None \<Rightarrow> raise (KeyError (VStr k))
      | Some v \<Rightarrow> io_return (v, AList.delete k d))"

text \<open>The same on a dictionary value.\<close>

definition py_pop :: "pydict \<Rightarrow> string \<Rightarrow> (val \<times> pydict) io" where
  "py_pop d k =
     (case py_lookup d (VStr k) of
        None \<Rightarrow> raise (KeyError (VStr k))
      | Some v \<Rightarrow> io_return (v, py_delitem (VStr k) d))"

definition dict_contains :: "string \<Rightarrow> dict \<Rightarrow> bool" where
  "dict_contains k d = (map_of d k \<noteq> None)"

section \<open>get_release\<close>

text \<open>\<^verbatim>\<open>release_data['relationships'][key]\<close>.\<close>

definition relationship :: "val \<Rightarrow> string \<Rightarrow> val io" where
  "relationship release_data k =
     io_bind (getitem release_data ''relationships'') (\<lambda>rels. getitem rels k)"

text \<open>
  A single-valued relationship (lines 202 to 221 of the module): the display key of the
  related object, or \<^verbatim>\<open>None\<close> when the relationship is empty.
\<close>

definition flatten_relationship :: "val \<Rightarrow> string \<Rightarrow> string \<Rightarrow> val io" where
  "flatten_relationship release_data k display =
     io_bind (relationship release_data k) (\<lambda>rel.
       if truthy rel then getitem rel display else io_return VNone)"

text \<open>
  Lines 197 to 243 of \<^verbatim>\<open>get_release\<close>: the canonical mapping of the single search
  result, built in the order of the source: the id, the attributes merged by
  \<^verbatim>\<open>release.update\<close>, the flattened relationships, the renamed \<^verbatim>\<open>is_active\<close>, the
  truncated \<^verbatim>\<open>ship_date\<close>.
\<close>

definition normalize_release :: "val \<Rightarrow> pydict io" where
  "normalize_release release_data =
     io_bind (getitem release_data ''id'') (\<lambda>rid.
     io_bind (getitem release_data ''attributes'') (\<lambda>attributes.
     io_bind (py_update [(VStr ''id'', rid)] attributes) (\<lambda>release.
     io_bind (flatten_relationship release_data ''product'' ''short_name'') (\<lambda>product.
     io_bind (flatten_relationship release_data ''program_manager'' ''login_name'') (\<lambda>pm.
     io_bind (flatten_relationship release_data ''state_machine_rule_set'' ''name'') (\<lambda>rule_set.
     io_bind (relationship release_data ''brew_tags'') (\<lambda>brew_tags.
     io_bind (relationship release_data ''product_versions'') (\<lambda>product_version_data.
     io_bind (py_iter product_version_data) (\<lambda>pvs.
     io_bind (io_map (\<lambda>pv. getitem pv ''name'') pvs) (\<lambda>product_versions.
     io_bind (py_pop
               (py_set ''product_versions'' (VList product_versions)
               (py_set ''brew_tags'' brew_tags
               (py_set ''state_machine_rule_set'' rule_set
               (py_set ''program_manager'' pm
               (py_set ''product'' product release)))))
               ''is_active'') (\<lambda>(is_active, release).
     io_bind (py_getitem (py_set ''active'' is_active release) ''ship_date'') (\<lambda>ship_date.
       if ship_date \<noteq> VNone
       then io_bind (slice10 ship_date) (\<lambda>d.
              io_return (py_set ''ship_date'' d (py_set ''active'' is_active release)))
       else io_return (py_set ''active'' is_active release)))))))))))))"

text \<open>
  \<^verbatim>\<open>get_release(client, name)\<close>: \<^verbatim>\<open>None\<close> when no release has the name, the error
  when several have it, the canonical mapping (a dictionary) otherwise.
\<close>

definition get_release :: "client \<Rightarrow> val \<Rightarrow> val io" where
  "get_release c name =
     io_bind (client_get c (Fmt ''api/v1/releases'' []) [(''filter[name]'', name)]) (\<lambda>r.
     io_bind (raise_for_status (Fmt ''api/v1/releases'' []) r) (\<lambda>_.
     io_bind (response_json r) (\<lambda>data.
     io_bind (getitem data ''data'') (\<lambda>results.
       if \<not> truthy results then io_return VNone
       else io_bind (len results) (\<lambda>n.
         if n > 1 then raise (ValueError (Fmt ''multiple %s releases found'' [name]))
         else io_bind (getitem0 results) (\<lambda>release_data.
              io_bind (normalize_release release_data) (\<lambda>release. io_return (VDict release))))))))"

section \<open>Id resolvers\<close>

definition get_product_id :: "client \<Rightarrow> val \<Rightarrow> val io" where
  "get_product_id c name =
     io_bind (client_get c (Fmt ''api/v1/products/%s'' [name]) []) (\<lambda>response.
     io_bind (raise_for_status (Fmt ''api/v1/products/%s'' [name]) response) (\<lambda>_.
     io_bind (response_json response) (\<lambda>data.
     io_bind (getitem data ''data'') (\<lambda>d. getitem d ''id''))))"

text \<open>The body of the loop of \<^verbatim>\<open>get_product_version_ids\<close>: the lookup of one name.\<close>

definition product_version_lookup :: "client \<Rightarrow> val \<Rightarrow> val io" where
  "product_version_lookup c name =
     io_bind (client_get c (Fmt ''product_versions/%s.json'' [name]) []) (\<lambda>response.
     io_bind (raise_for_status (Fmt ''product_versions/%s.json'' [name]) response) (\<lambda>_.
     io_bind (response_json response) (\<lambda>data. getitem data ''id'')))"

text \<open>The loop, with the list \<^verbatim>\<open>ids\<close> built so far.\<close>

fun product_version_ids_loop :: "client \<Rightarrow> val list \<Rightarrow> val list \<Rightarrow> val list io" where
  "product_version_ids_loop c ids [] = io_return ids"
| "product_version_ids_loop c ids (name # names) =
     io_bind (product_version_lookup c name) (\<lambda>i.
       product_version_ids_loop c (ids @ [i]) names)"

definition get_product_version_ids :: "client \<Rightarrow> val \<Rightarrow> val io" where
  "get_product_version_ids c names =
     io_bind (py_iter names) (\<lambda>ns.
     io_bind (product_version_ids_loop c [] ns) (\<lambda>ids. io_return (VList ids)))"

text \<open>
  Modelled from the spec: \<^verbatim>\<open>common_errata_tool.user_id\<close> is not in this module. The
  user resolver looks a user up by login and returns its id, or fails with
  UserNotFoundError when the user is not found. The lookup is one read.
\<close>

definition user_id :: "client \<Rightarrow> val \<Rightarrow> val io" where
  "user_id c login_name =
     (case users c login_name of
        None \<Rightarrow> (Inl (UserNotFoundError login_name), [LOOKUP ''user'' login_name])
      | Some i \<Rightarrow> (Inr i, [LOOKUP ''user'' login_name]))"

text \<open>
  Modelled from the spec: \<^verbatim>\<open>common_errata_tool.WorkflowRulesScraper\<close> is not in this
  module. The rule-set resolver resolves a label to an id through a table of labels and
  ids scraped from the service; a label that is not in the table is a failed dictionary
  lookup. The scrape is one read.
\<close>

definition rule_set_id :: "client \<Rightarrow> val \<Rightarrow> int io" where
  "rule_set_id c label =
     (case rule_sets c label of
        None \<Rightarrow> (Inl (KeyError label), [LOOKUP ''workflow_rules'' label])
      | Some i \<Rightarrow> (Inr i, [LOOKUP ''workflow_rules'' label]))"

section \<open>api_data\<close>

text \<open>
  \<^verbatim>\<open>try: ... except UserNotFoundError as e: raise_from(ProgramManagerNotFoundError(str(e)), e)\<close>
\<close>

definition except_UserNotFoundError :: "'a io \<Rightarrow> 'a io" where
  "except_UserNotFoundError m =
     (case m of
        (Inl (UserNotFoundError x), l) \<Rightarrow> (Inl (ProgramManagerNotFoundError x), l)
      | _ \<Rightarrow> m)"

text \<open>\<^verbatim>\<open>sep.join(items)\<close>: every item has to be a string.\<close>

fun join_strs :: "string \<Rightarrow> val list \<Rightarrow> string io" where
  "join_strs sep [] = io_return []"
| "join_strs sep [VStr s] = io_return s"
| "join_strs sep (VStr s # x # xs) =
     io_bind (join_strs sep (x # xs)) (\<lambda>r. io_return (s @ sep @ r))"
| "join_strs sep (_ # xs) = raise TypeError"

definition str_join :: "string \<Rightarrow> val \<Rightarrow> val io" where
  "str_join sep v =
     io_bind (py_iter v) (\<lambda>items.
     io_bind (join_strs sep items) (\<lambda>s. io_return (VStr s)))"

text \<open>The steps of \<^verbatim>\<open>api_data\<close>, one per \<^verbatim>\<open>if key in release\<close> block, in its order.\<close>

definition api_data_product :: "client \<Rightarrow> dict \<Rightarrow> dict io" where
  "api_data_product c release =
     (if dict_contains ''product'' release
      then io_bind (dict_pop release ''product'') (\<lambda>(product_name, release).
             if product_name \<noteq> VNone
             then io_bind (get_product_id c product_name) (\<lambda>product_id.
                    io_return (dict_set ''product_id'' product_id release))
             else io_return release)
      else io_return release)"

definition api_data_program_manager :: "client \<Rightarrow> dict \<Rightarrow> dict io" where
  "api_data_program_manager c release =
     (if dict_contains ''program_manager'' release
      then io_bind (dict_pop release ''program_manager'') (\<lambda>(pm_login_name, release).
           io_bind (except_UserNotFoundError (user_id c pm_login_name)) (\<lambda>pm_id.
             io_return (dict_set ''program_manager_id'' pm_id release)))
      else io_return release)"

definition api_data_active :: "dict \<Rightarrow> dict io" where
  "api_data_active release =
     (if dict_contains ''active'' release
      then io_bind (dict_pop release ''active'') (\<lambda>(active, release).
             io_return (dict_set ''isactive'' active release))
      else io_return release)"

definition api_data_supports_component_acl :: "dict \<Rightarrow> dict io" where
  "api_data_supports_component_acl release =
     (if dict_contains ''supports_component_acl'' release
      then io_bind (dict_pop release ''supports_component_acl'')
             (\<lambda>(supports_component_acl, release).
               io_return (dict_set ''disable_acl''
                            (VBool (\<not> truthy supports_component_acl)) release))
      else io_return release)"

definition api_data_product_versions :: "client \<Rightarrow> dict \<Rightarrow> dict io" where
  "api_data_product_versions c release =
     (if dict_contains ''product_versions'' release
      then io_bind (dict_pop release ''product_versions'') (\<lambda>(product_versions, release).
           io_bind (get_product_version_ids c product_versions) (\<lambda>product_version_ids.
             io_return (dict_set ''product_version_ids'' product_version_ids release)))
      else io_return release)"

definition api_data_state_machine_rule_set :: "client \<Rightarrow> dict \<Rightarrow> dict io" where
  "api_data_state_machine_rule_set c release =
     (if dict_contains ''state_machine_rule_set'' release
      then io_bind (dict_pop release ''state_machine_rule_set'')
             (\<lambda>(state_machine_rule_set, release).
               if truthy state_machine_rule_set
               then io_bind (rule_set_id c state_machine_rule_set) (\<lambda>rule_set_id.
                      io_return (dict_set ''state_machine_rule_set_id''
                                   (VInt rule_set_id) release))
               else io_return (dict_set ''state_machine_rule_set_id'' VNone release))
      else io_return release)"

definition api_data_blocker_flags :: "dict \<Rightarrow> dict io" where
  "api_data_blocker_flags release =
     (if dict_contains ''blocker_flags'' release
      then io_bind (dict_getitem release ''blocker_flags'') (\<lambda>flags.
           io_bind (str_join '','' flags) (\<lambda>joined.
             io_return (dict_set ''blocker_flags'' joined release)))
      else io_return release)"

text \<open>
  \<^verbatim>\<open>api_data(client, params)\<close>: the payload
  \<^verbatim>\<open>{'release': release, 'type': params['type']}\<close> (the type only when given).
\<close>

definition api_data :: "client \<Rightarrow> dict \<Rightarrow> val io" where
  "api_data c params =
     io_bind (api_data_product c params) (\<lambda>release.
     io_bind (api_data_program_manager c release) (\<lambda>release.
     io_bind (api_data_active release) (\<lambda>release.
     io_bind (api_data_supports_component_acl release) (\<lambda>release.
     io_bind (api_data_product_versions c release) (\<lambda>release.
     io_bind (api_data_state_machine_rule_set c release) (\<lambda>release.
     io_bind (api_data_blocker_flags release) (\<lambda>release.
       if dict_contains ''type'' params
       then io_bind (dict_getitem params ''type'') (\<lambda>t.
              io_return (to_val (dict_set ''type'' t [(''release'', to_val release)])))
       else io_return (to_val [(''release'', to_val release)]))))))))"

section \<open>create_release and edit_release\<close>

definition create_release :: "client \<Rightarrow> dict \<Rightarrow> unit io" where
  "create_release c params =
     io_bind (api_data c params) (\<lambda>data.
     io_bind (client_post c (Fmt ''api/v1/releases'' []) data) (\<lambda>response.
       if status_code response \<noteq> 201
       then io_bind (response_json response) (\<lambda>body. raise (ValueError_json body))
       else io_return ()))"

text \<open>\<^verbatim>\<open>template % x\<close> with a \<^verbatim>\<open>%d\<close> conversion: a number is required.\<close>

fun format_d :: "string \<Rightarrow> val \<Rightarrow> fstring io" where
  "format_d template (VInt i) = io_return (Fmt template [VInt i])"
| "format_d template (VBool b) = io_return (Fmt template [VBool b])"
| "format_d template _ = raise TypeError"

text \<open>
  Lines 334 to 337 of \<^verbatim>\<open>edit_release\<close>: the parameter dictionary built from the
  differences, \<^verbatim>\<open>params[key] = new\<close> for each.
\<close>

definition difference_params :: "difference list \<Rightarrow> dict" where
  "difference_params differences =
     fold (\<lambda>(key, _, new). dict_set key new) differences []"

definition edit_release :: "client \<Rightarrow> val \<Rightarrow> difference list \<Rightarrow> unit io" where
  "edit_release c release_id differences =
     io_bind (api_data c (difference_params differences)) (\<lambda>data.
     io_bind (format_d ''api/v1/releases/%d'' release_id) (\<lambda>path.
     io_bind (client_put c path data) (\<lambda>response.
       if status_code response \<noteq> 200
       then io_bind (response_json response) (\<lambda>body. raise (ValueError_json body))
       else io_return ())))"

section \<open>The diff engine and the report helpers\<close>

text \<open>
  Modelled from the spec: \<^verbatim>\<open>common_errata_tool.diff_settings\<close> is not in this module.
  For every desired field, in the order of the desired parameters, the desired value is
  compared with the corresponding current value (lists by value equality of the whole
  ordered sequence), and a Difference (field, current, desired) is emitted when they are
  unequal. A desired field with no current value is a failed dictionary lookup.
\<close>

fun diff_settings :: "val \<Rightarrow> dict \<Rightarrow> difference list io" where
  "diff_settings settings [] = io_return []"
| "diff_settings settings ((key, new) # params) =
     io_bind (getitem settings key) (\<lambda>current_value.
     io_bind (diff_settings settings params) (\<lambda>differences.
       io_return (if current_value \<noteq> new
                  then (key, current_value, new) # differences
                  else differences)))"

text \<open>
  \<^verbatim>\<open>common_errata_tool.describe_changes\<close> and \<^verbatim>\<open>common_errata_tool.task_diff_data\<close> are
  not in this module and the spec does not say what they compute: they are parameters.
  Each returns a value or raises, and makes no call through the client.
\<close>

record helpers =
  describe_changes :: "difference list \<Rightarrow> error + fstring list"
  task_diff_data ::
    "val \<Rightarrow> dict \<Rightarrow> val \<Rightarrow> string \<Rightarrow> string list \<Rightarrow> string list \<Rightarrow> error + val"

definition prepare_diff_data :: "helpers \<Rightarrow> val \<Rightarrow> dict \<Rightarrow> val io" where
  "prepare_diff_data h before_state after_state =
     io_bind (dict_getitem after_state ''name'') (\<lambda>item_name.
       lift (task_diff_data h before_state after_state item_name ''release''
               [''pelc_product_version_name'', ''state_machine_rule_set'',
                ''zstream_target_release'']
               [''is_async'', ''is_deferred'']))"

section \<open>ensure_release\<close>

record result =
  changed :: bool
  stdout_lines :: "fstring list"
  diff :: "val option"

text \<open>
  Lines 370 to 375: the parameters with a \<^verbatim>\<open>None\<close> value are dropped, then an empty
  string for \<^verbatim>\<open>state_machine_rule_set\<close> becomes \<^verbatim>\<open>None\<close>.
\<close>

definition desired_params :: "dict \<Rightarrow> dict" where
  "desired_params params =
     (let params = filter (\<lambda>(param, val). val \<noteq> VNone) params
      in if map_of params ''state_machine_rule_set'' = Some (VStr [])
         then dict_set ''state_machine_rule_set'' VNone params
         else params)"

text \<open>
  Lines 395 to 399: the differences sent to \<^verbatim>\<open>edit_release\<close>, with the entry for
  \<^verbatim>\<open>product_versions\<close> added when no difference has that key.
\<close>

definition with_product_versions :: "dict \<Rightarrow> difference list \<Rightarrow> difference list io" where
  "with_product_versions params differences =
     (if ''product_versions'' \<notin> set (map fst differences)
      then io_bind (dict_getitem params ''product_versions'') (\<lambda>pv.
             io_return (differences @ [(''product_versions'', pv, pv)]))
      else io_return differences)"

definition ensure_release :: "client \<Rightarrow> helpers \<Rightarrow> dict \<Rightarrow> bool \<Rightarrow> result io" where
  "ensure_release c h params check_mode =
     (let params = desired_params params in
      io_bind (dict_getitem params ''name'') (\<lambda>name.
      io_bind (get_release c name) (\<lambda>release.
        if \<not> truthy release
        then io_bind (prepare_diff_data h release params) (\<lambda>d.
             io_bind (if \<not> check_mode then create_release c params else io_return ()) (\<lambda>_.
               io_return \<lparr>changed = True,
                          stdout_lines = [Fmt ''created %s'' [name]],
                          diff = Some d\<rparr>))
        else io_bind (diff_settings release params) (\<lambda>differences.
          if differences \<noteq> []
          then io_bind (lift (describe_changes h differences)) (\<lambda>changes.
               io_bind (prepare_diff_data h release params) (\<lambda>d.
               io_bind (if \<not> check_mode
                        then io_bind (with_product_versions params differences) (\<lambda>differences.
                             io_bind (getitem release ''id'') (\<lambda>release_id.
                               edit_release c release_id differences))
                        else io_return ()) (\<lambda>_.
                 io_return \<lparr>changed = True, stdout_lines = changes, diff = Some d\<rparr>)))
          else io_return \<lparr>changed = False, stdout_lines = [], diff = None\<rparr>))))"

section \<open>Write calls and example data\<close>

text \<open>The writes of a run: the POST and PUT calls it made, in order.\<close>

definition writes :: "'a io \<Rightarrow> call list" where
  "writes m = filter is_write (snd m)"

text \<open>One element of the \<^verbatim>\<open>data\<close> list that the release search returns.\<close>

definition example_release_data :: val where
  "example_release_data =
     to_val [(''id'', VInt 7),
            (''attributes'', to_val [(''name'', VStr ''rhceph-4.0''),
                                    (''is_active'', VBool True),
                                    (''ship_date'', VStr ''2020-01-31T00:00:00Z'')]),
            (''relationships'',
               to_val [(''product'', to_val [(''short_name'', VStr ''RHCEPH'')]),
                      (''program_manager'', VNone),
                      (''state_machine_rule_set'', to_val [(''name'', VStr ''Unrestricted'')]),
                      (''brew_tags'', VList [VStr ''ceph-4.0-rhel-8-candidate'']),
                      (''product_versions'',
                         VList [to_val [(''name'', VStr ''RHCEPH-4.0-RHEL-8'')]])])]"

text \<open>
  A service whose release search returns \<open>results\<close>, that knows one product version
  (id 929) and one user, accepts every write and has no rule set.
\<close>

definition example_client :: "val list \<Rightarrow> client" where
  "example_client results =
     \<lparr>get = (\<lambda>path params.
               if path = Fmt ''api/v1/releases'' []
               then \<lparr>status_code = 200, json = Some (to_val [(''data'', VList results)])\<rparr>
               else if path = Fmt ''product_versions/%s.json'' [VStr ''RHCEPH-4.0-RHEL-8'']
               then \<lparr>status_code = 200, json = Some (to_val [(''id'', VInt 929)])\<rparr>
               else \<lparr>status_code = 404, json = None\<rparr>),
      post = (\<lambda>path data. \<lparr>status_code = 201, json = Some VNone\<rparr>),
      put = (\<lambda>path data. \<lparr>status_code = 200, json = Some VNone\<rparr>),
      users = (\<lambda>login. if login = VStr ''pm@redhat.com'' then Some (VInt 3001) else None),
      rule_sets = (\<lambda>label. None)\<rparr>"

text \<open>Report helpers that keep everything they are given.\<close>

definition example_helpers :: helpers where
  "example_helpers =
     \<lparr>describe_changes = (\<lambda>ds. Inr (map (\<lambda>(k, old, new). Fmt ''changing %s from %s to %s'' [VStr k, old, new]) ds)),
      task_diff_data = (\<lambda>b a item_name item_type keys_to_copy keys_to_omit.
                          Inr (to_val [(''before'', b), (''after'', to_val a)]))\<rparr>"

text \<open>Parameters that differ from the example release in \<^verbatim>\<open>active\<close> only.\<close>

definition example_params :: dict where
  "example_params =
     [(''name'', VStr ''rhceph-4.0''),
      (''product_versions'', VList [VStr ''RHCEPH-4.0-RHEL-8'']),
      (''active'', VBool False),
      (''program_manager'', VNone)]"

text \<open>Parameters that name a program manager the service does not know.\<close>

definition ghost_params :: dict where
  "ghost_params =
     [(''name'', VStr ''rhceph-4.0''),
      (''program_manager'', VStr ''ghost@redhat.com''),
      (''product_versions'', VList [VStr ''RHCEPH-4.0-RHEL-8''])]"

text \<open>Parameters that the example release already satisfies.\<close>

definition converged_params :: dict where
  "converged_params =
     [(''name'', VStr ''rhceph-4.0''),
      (''product_versions'', VList [VStr ''RHCEPH-4.0-RHEL-8'']),
      (''active'', VBool True),
      (''ship_date'', VStr ''2020-01-31''),
      (''program_manager'', VNone),
      (''state_machine_rule_set'', VStr ''Unrestricted'')]"



text \<open>A release with the given attributes and no relationship.\<close>

definition bare_release_data :: "val \<Rightarrow> val" where
  "bare_release_data attributes =
     to_val [(''id'', VInt 7),
            (''attributes'', attributes),
            (''relationships'',
               to_val [(''product'', VNone),
                      (''program_manager'', VNone),
                      (''state_machine_rule_set'', VNone),
                      (''brew_tags'', VList []),
                      (''product_versions'', VList [])])]"

text \<open>Parameters that unset the workflow rule set.\<close>

definition unset_rule_set_params :: dict where
  "unset_rule_set_params =
     [(''name'', VStr ''rhceph-4.0''),
      (''program_manager'', VNone),
      (''product_versions'', VList [VStr ''RHCEPH-4.0-RHEL-8'']),
      (''state_machine_rule_set'', VStr [])]"

text \<open>Parameters that say nothing about the workflow rule set.\<close>

definition omitted_rule_set_params :: dict where
  "omitted_rule_set_params =
     [(''name'', VStr ''rhceph-4.0''),
      (''product_versions'', VList [VStr ''RHCEPH-4.0-RHEL-8'']),
      (''state_machine_rule_set'', VNone)]"

text \<open>The canonical mapping of \<open>example_release_data\<close>.\<close>

definition example_release :: dict where
  "example_release =
     [(''id'', VInt 7), (''name'', VStr ''rhceph-4.0''),
      (''ship_date'', VStr ''2020-01-31''), (''product'', VStr ''RHCEPH''),
      (''program_manager'', VNone),
      (''state_machine_rule_set'', VStr ''Unrestricted''),
      (''brew_tags'', VList [VStr ''ceph-4.0-rhel-8-candidate'']),
      (''product_versions'', VList [VStr ''RHCEPH-4.0-RHEL-8'']),
      (''active'', VBool True)]"
section \<open>Basic lemmas\<close>

lemma io_bind_return [simp]: "io_bind (io_return x) f = f x"
  by (simp add: io_bind_def io_return_def split: prod.splits)

lemma io_bind_raise [simp]: "io_bind (raise e) f = raise e"
  by (simp add: io_bind_def raise_def)

lemma io_bind_Inl [simp]: "io_bind (Inl e, l) f = (Inl e, l)"
  by (simp add: io_bind_def)

lemma io_bind_Inr [simp]: "io_bind (Inr x, l) f = (fst (f x), l @ snd (f x))"
  by (simp add: io_bind_def split: prod.splits)

lemma io_bind_cases:
  "io_bind m f = (case fst m of Inl e \<Rightarrow> (Inl e, snd m) | Inr x \<Rightarrow> (fst (f x), snd m @ snd (f x)))"
  by (cases m) (auto simp: io_bind_def split: sum.splits prod.splits)

lemma snd_io_bind_pure:
  "snd m = [] \<Longrightarrow> (\<And>x. snd (f x) = []) \<Longrightarrow> snd (io_bind m f) = []"
  by (simp add: io_bind_cases split: sum.splits)

lemma writes_io_bind:
  "writes m = [] \<Longrightarrow> (\<And>x. writes (f x) = []) \<Longrightarrow> writes (io_bind m f) = []"
  by (simp add: io_bind_cases writes_def split: sum.splits)

lemma writes_pure: "snd m = [] \<Longrightarrow> writes m = []"
  by (simp add: writes_def)

lemma snd_io_return [simp]: "snd (io_return x) = []" by (simp add: io_return_def)
lemma snd_raise [simp]: "snd (raise e) = []" by (simp add: raise_def)
lemma snd_lift [simp]: "snd (lift r) = []" by (simp add: lift_def)
lemma fst_io_return [simp]: "fst (io_return x) = Inr x" by (simp add: io_return_def)
lemma fst_raise [simp]: "fst (raise e) = Inl e" by (simp add: raise_def)

lemma key_eq_VStr [simp]: "key_eq x (VStr k) = (x = VStr k)"
  by (cases x) (auto simp: key_eq_def)

lemma py_lookup_str [simp]: "py_lookup d (VStr k) = map_of d (VStr k)"
  by (induction d) auto

lemma py_setitem_str: "py_setitem (VStr k) v d = AList.update (VStr k) v d"
  by (induction d) auto

lemma map_of_py_set [simp]: "map_of (py_set k v d) = (map_of d)(VStr k \<mapsto> v)"
  by (simp add: py_set_def py_setitem_str update_conv')

lemma py_delitem_str: "py_delitem (VStr k) d = AList.delete (VStr k) d"
  by (induction d) (auto simp: py_delitem_def)

lemma map_of_py_delitem [simp]: "map_of (py_delitem (VStr k) d) = (map_of d)(VStr k := None)"
  by (simp add: py_delitem_str delete_conv')

lemma map_of_to_val [simp]: "map_of (map (\<lambda>(k, v). (VStr k, v)) d) (VStr k) = map_of d k"
  by (induction d) auto

lemma truthy_to_val [simp]: "truthy (to_val d) = (d \<noteq> [])"
  by (simp add: to_val_def)

lemma to_val_inject [simp]: "to_val a = to_val b \<longleftrightarrow> a = b"
proof -
  have "inj (\<lambda>(k, v). (VStr k, v :: val))" by (auto simp: inj_on_def)
  then show ?thesis by (auto simp: to_val_def dest: inj_mapD)
qed

lemma snd_dict_getitem [simp]: "snd (dict_getitem d k) = []"
  by (simp add: dict_getitem_def split: option.splits)
lemma snd_py_getitem [simp]: "snd (py_getitem d k) = []"
  by (simp add: py_getitem_def split: option.splits)
lemma getitem_to_val [simp]: "getitem (to_val d) k = dict_getitem d k"
  by (simp add: to_val_def py_getitem_def dict_getitem_def)
lemma snd_getitem [simp]: "snd (getitem v k) = []"
  by (cases v) simp_all
lemma snd_getitem0 [simp]: "snd (getitem0 v) = []"
  by (induction v rule: getitem0.induct) (simp_all split: option.splits)
lemma snd_len [simp]: "snd (len v) = []"
  by (cases v) simp_all
lemma snd_slice10 [simp]: "snd (slice10 v) = []"
  by (cases v) simp_all
lemma snd_py_iter [simp]: "snd (py_iter v) = []"
  by (cases v) simp_all
lemma snd_dict_pop [simp]: "snd (dict_pop d k) = []"
  by (simp add: dict_pop_def split: option.splits)
lemma snd_py_pop [simp]: "snd (py_pop d k) = []"
  by (simp add: py_pop_def split: option.splits)
lemma snd_update_item [simp]: "snd (update_item i v) = []"
  by (auto simp: update_item_def intro!: snd_io_bind_pure split: list.splits)
lemma snd_py_update_seq [simp]: "snd (py_update_seq i d xs) = []"
  by (induction xs arbitrary: i d) (auto intro!: snd_io_bind_pure)
lemma snd_py_update [simp]: "snd (py_update d v) = []"
  by (auto simp: py_update_def intro!: snd_io_bind_pure split: val.splits)
lemma snd_io_map: "(\<And>x. snd (f x) = []) \<Longrightarrow> snd (io_map f xs) = []"
  by (induction xs) (simp_all add: snd_io_bind_pure)
lemma snd_relationship [simp]: "snd (relationship v k) = []"
  by (simp add: relationship_def snd_io_bind_pure)
lemma snd_flatten_relationship [simp]: "snd (flatten_relationship v k d) = []"
  by (simp add: flatten_relationship_def snd_io_bind_pure)
lemma snd_normalize [simp]: "snd (normalize_release v) = []"
  unfolding normalize_release_def
  by (intro snd_io_bind_pure) (auto simp: snd_io_map snd_io_bind_pure split: val.splits)
lemma snd_join_strs [simp]: "snd (join_strs sep xs) = []"
  by (induction sep xs rule: join_strs.induct) (simp_all add: snd_io_bind_pure)
lemma snd_str_join [simp]: "snd (str_join sep v) = []"
  by (simp add: str_join_def snd_io_bind_pure)
lemma snd_format_d [simp]: "snd (format_d t v) = []"
  by (cases v) simp_all
lemma snd_diff_settings [simp]: "snd (diff_settings s p) = []"
  by (induction s p rule: diff_settings.induct) (simp_all add: snd_io_bind_pure)
lemma snd_prepare_diff_data [simp]: "snd (prepare_diff_data h b a) = []"
  by (simp add: prepare_diff_data_def snd_io_bind_pure)
lemma snd_with_product_versions [simp]: "snd (with_product_versions p d) = []"
  by (simp add: with_product_versions_def snd_io_bind_pure)


lemma writes_client_get [simp]: "writes (client_get c p q) = []"
  by (simp add: writes_def client_get_def)

lemma writes_pure_simps [simp]:
  "writes (io_return x) = []" "writes (raise e) = []" "writes (lift r) = []"
  "writes (getitem v k) = []" "writes (dict_getitem d k) = []" "writes (dict_pop d k) = []"
  "writes (py_iter v) = []" "writes (str_join sep v) = []" "writes (format_d t v) = []"
  by (simp_all add: writes_pure)

lemma writes_raise_for_status [simp]: "writes (raise_for_status u r) = []"
  by (simp add: raise_for_status_def)

lemma writes_response_json [simp]: "writes (response_json r) = []"
  by (simp add: response_json_def split: option.splits)

lemma writes_get_product_id [simp]: "writes (get_product_id c n) = []"
  by (simp add: get_product_id_def writes_io_bind)

lemma writes_product_version_lookup [simp]: "writes (product_version_lookup c n) = []"
  by (simp add: product_version_lookup_def writes_io_bind)

lemma writes_product_version_ids_loop [simp]: "writes (product_version_ids_loop c ids ns) = []"
  by (induction ns arbitrary: ids) (simp_all add: writes_io_bind)

lemma writes_get_product_version_ids [simp]: "writes (get_product_version_ids c ns) = []"
  by (simp add: get_product_version_ids_def writes_io_bind)

lemma writes_user_id [simp]: "writes (user_id c n) = []"
  by (simp add: user_id_def writes_def split: option.splits)

lemma writes_except [simp]: "writes (except_UserNotFoundError m) = writes m"
  by (simp add: except_UserNotFoundError_def writes_def split: prod.splits sum.splits error.splits)

lemma writes_rule_set_id [simp]: "writes (rule_set_id c n) = []"
  by (simp add: rule_set_id_def writes_def split: option.splits)

lemma writes_api_data_steps [simp]:
  "writes (api_data_product c r) = []"
  "writes (api_data_program_manager c r) = []"
  "writes (api_data_active r) = []"
  "writes (api_data_supports_component_acl r) = []"
  "writes (api_data_product_versions c r) = []"
  "writes (api_data_state_machine_rule_set c r) = []"
  "writes (api_data_blocker_flags r) = []"
  by (auto simp: api_data_product_def api_data_program_manager_def api_data_active_def
      api_data_supports_component_acl_def api_data_product_versions_def
      api_data_state_machine_rule_set_def api_data_blocker_flags_def
      intro!: writes_io_bind)

lemma writes_api_data [simp]: "writes (api_data c p) = []"
  unfolding api_data_def by (intro writes_io_bind) (simp_all add: writes_io_bind)


lemma writes_get_release [simp]: "writes (get_release c n) = []"
  unfolding get_release_def
  by (intro writes_io_bind) (simp_all add: writes_io_bind writes_pure snd_io_bind_pure)

lemma writes_diff_settings [simp]: "writes (diff_settings r p) = []"
  by (simp add: writes_pure)
lemma writes_prepare_diff_data [simp]: "writes (prepare_diff_data h r p) = []"
  by (simp add: writes_pure)

lemma ensure_check_no_writes: "writes (ensure_release c h p True) = []"
  unfolding ensure_release_def Let_def
  by (intro writes_io_bind) (simp_all add: writes_io_bind)

lemma ensure_check_same:
  "fst (ensure_release c h p False) = Inr r \<Longrightarrow> fst (ensure_release c h p True) = Inr r"
  unfolding ensure_release_def Let_def
  by (auto simp: io_bind_cases split: sum.splits if_splits)

lemma ensure_check_prefix:
  "\<exists>l. snd (ensure_release c h p False) = snd (ensure_release c h p True) @ l"
  unfolding ensure_release_def Let_def
  by (auto simp: io_bind_cases split: sum.splits if_splits)

lemma ensure_check_conv:
  "fst (ensure_release c h p True) = Inr r \<Longrightarrow>
     fst (ensure_release c h p False) = Inr r \<or> (\<exists>e. fst (ensure_release c h p False) = Inl e)"
  unfolding ensure_release_def Let_def
  by (auto simp: io_bind_cases split: sum.splits if_splits)


lemmas eval_defs = example_release_data_def example_client_def example_helpers_def example_params_def
  ensure_release_def desired_params_def get_release_def normalize_release_def client_get_def client_put_def client_post_def
  raise_for_status_def response_json_def dict_getitem_def dict_set_def dict_pop_def dict_contains_def
  to_val_def py_getitem_def py_set_def py_pop_def py_delitem_def py_update_def update_item_def key_eq_def
  relationship_def flatten_relationship_def prepare_diff_data_def with_product_versions_def edit_release_def
  create_release_def difference_params_def api_data_def api_data_product_def api_data_program_manager_def
  api_data_active_def api_data_supports_component_acl_def api_data_product_versions_def
  api_data_state_machine_rule_set_def api_data_blocker_flags_def get_product_version_ids_def
  product_version_lookup_def get_product_id_def user_id_def rule_set_id_def except_UserNotFoundError_def
  str_join_def lift_def io_return_def raise_def io_bind_def

lemma map_of_dict_set [simp]: "map_of (dict_set k v d) = (map_of d)(k \<mapsto> v)"
  by (simp add: dict_set_def update_conv')

lemma fst_dict_getitem: "fst (dict_getitem d k) = (case map_of d k of None \<Rightarrow> Inl (KeyError (VStr k)) | Some v \<Rightarrow> Inr v)"
  by (simp add: dict_getitem_def split: option.splits)

lemma fst_py_getitem: "fst (py_getitem d k) = (case map_of d (VStr k) of None \<Rightarrow> Inl (KeyError (VStr k)) | Some v \<Rightarrow> Inr v)"
  by (simp add: py_getitem_def split: option.splits)


lemma fst_dict_pop: "fst (dict_pop d k) = (case map_of d k of None \<Rightarrow> Inl (KeyError (VStr k)) | Some v \<Rightarrow> Inr (v, AList.delete k d))"
  by (simp add: dict_pop_def split: option.splits)

lemma create_release_fail:
  "fst (api_data c p) = Inl e \<Longrightarrow> fst (create_release c p) = Inl e \<and> writes (create_release c p) = []"
  using writes_api_data[of c p] by (simp add: create_release_def io_bind_cases writes_def)

lemma edit_release_fail:
  "fst (api_data c (difference_params ds)) = Inl e \<Longrightarrow>
     fst (edit_release c rid ds) = Inl e \<and> writes (edit_release c rid ds) = []"
  using writes_api_data[of c "difference_params ds"]
  by (simp add: edit_release_def io_bind_cases writes_def)

lemma create_release_log:
  "fst (api_data c p) = Inr d \<Longrightarrow>
     snd (create_release c p) = snd (api_data c p) @ [POST (Fmt ''api/v1/releases'' []) d]"
  by (simp add: create_release_def io_bind_cases client_post_def response_json_def split: option.splits)

lemma edit_release_log:
  "fst (api_data c (difference_params ds)) = Inr d \<Longrightarrow>
     snd (edit_release c rid ds) = snd (api_data c (difference_params ds)) @
        (case fst (format_d ''api/v1/releases/%d'' rid) of Inl e \<Rightarrow> [] | Inr path \<Rightarrow> [PUT path d])"
  by (simp add: edit_release_def io_bind_cases client_put_def response_json_def split: option.splits sum.splits)

lemma api_data_product_keeps:
  "fst (api_data_product c p) = Inr r \<Longrightarrow> k \<noteq> ''product'' \<Longrightarrow> k \<noteq> ''product_id'' \<Longrightarrow>
     map_of r k = map_of p k"
  by (auto simp: api_data_product_def io_bind_cases fst_dict_pop delete_conv' dict_contains_def
      split: if_splits sum.splits option.splits)

lemma api_data_pm_fail:
  "map_of r ''program_manager'' = Some pm \<Longrightarrow> users c pm = None \<Longrightarrow>
     fst (api_data_program_manager c r) = Inl (ProgramManagerNotFoundError pm)"
  by (simp add: api_data_program_manager_def dict_contains_def io_bind_cases fst_dict_pop
      user_id_def except_UserNotFoundError_def)

lemma api_data_pm_not_found:
  assumes "map_of p ''program_manager'' = Some pm" "users c pm = None"
  shows "(\<exists>e. fst (api_data c p) = Inl e) \<and>
         (map_of p ''product'' = None \<or> map_of p ''product'' = Some VNone \<longrightarrow>
            fst (api_data c p) = Inl (ProgramManagerNotFoundError pm))"
proof (cases "fst (api_data_product c p)")
  case (Inl e)
  then have "fst (api_data c p) = Inl e" by (simp add: api_data_def io_bind_cases)
  moreover have "\<not> (map_of p ''product'' = None \<or> map_of p ''product'' = Some VNone)"
    using Inl by (auto simp: api_data_product_def dict_contains_def io_bind_cases fst_dict_pop
        split: if_splits)
  ultimately show ?thesis by auto
next
  case (Inr r)
  then have "map_of r ''program_manager'' = Some pm"
    using api_data_product_keeps[OF Inr, of "''program_manager''"] assms by simp
  then have "fst (api_data_program_manager c r) = Inl (ProgramManagerNotFoundError pm)"
    using assms(2) by (rule api_data_pm_fail)
  then have "fst (api_data c p) = Inl (ProgramManagerNotFoundError pm)"
    using Inr by (simp add: api_data_def io_bind_cases)
  then show ?thesis by simp
qed

text \<open>
  Claim C5. In \<^verbatim>\<open>create_release\<close> and in \<^verbatim>\<open>edit_release\<close> the translation and id
  resolution of \<^verbatim>\<open>api_data\<close> is finished before the POST or PUT: \<^verbatim>\<open>api_data\<close> makes no
  write call; when it raises, the caller raises the same error and has made no write call;
  when it returns, the write comes after all of its calls. A program manager that the
  user directory does not know makes \<^verbatim>\<open>api_data\<close> raise, with
  ProgramManagerNotFoundError unless the product lookup before it has raised already.
\<close>

theorem resolution_before_write:
  "writes (api_data c params) = [] \<and>
   (\<forall>e. fst (api_data c params) = Inl e \<longrightarrow>
      fst (create_release c params) = Inl e \<and> writes (create_release c params) = []) \<and>
   (\<forall>e. fst (api_data c (difference_params differences)) = Inl e \<longrightarrow>
      fst (edit_release c release_id differences) = Inl e \<and>
      writes (edit_release c release_id differences) = []) \<and>
   (\<forall>d. fst (api_data c params) = Inr d \<longrightarrow>
      snd (create_release c params) =
        snd (api_data c params) @ [POST (Fmt ''api/v1/releases'' []) d]) \<and>
   (\<forall>d. fst (api_data c (difference_params differences)) = Inr d \<longrightarrow>
      snd (edit_release c release_id differences) =
        snd (api_data c (difference_params differences)) @
        (case fst (format_d ''api/v1/releases/%d'' release_id) of
           Inl e \<Rightarrow> [] | Inr path \<Rightarrow> [PUT path d])) \<and>
   (\<forall>pm. map_of params ''program_manager'' = Some pm \<and> users c pm = None \<longrightarrow>
      (\<exists>e. fst (api_data c params) = Inl e) \<and>
      (map_of params ''product'' = None \<or> map_of params ''product'' = Some VNone \<longrightarrow>
         fst (api_data c params) = Inl (ProgramManagerNotFoundError pm)))"
  using create_release_fail[of c params] edit_release_fail[of c differences _ release_id]
    create_release_log[of c params] edit_release_log[of c differences _ release_id]
    api_data_pm_not_found[of params _ c]
  by (intro conjI allI impI) (simp_all del: One_nat_def)

theorem resolution_before_write_witness:
  "map_of ghost_params ''program_manager'' = Some (VStr ''ghost@redhat.com'') \<and>
   users (example_client []) (VStr ''ghost@redhat.com'') = None \<and>
   map_of ghost_params ''product'' = None \<and>
   fst (api_data (example_client []) ghost_params) =
     Inl (ProgramManagerNotFoundError (VStr ''ghost@redhat.com'')) \<and>
   fst (create_release (example_client []) ghost_params) =
     Inl (ProgramManagerNotFoundError (VStr ''ghost@redhat.com'')) \<and>
   writes (create_release (example_client []) ghost_params) = []"
proof -
  have h1: "map_of ghost_params ''program_manager'' = Some (VStr ''ghost@redhat.com'')"
    by (simp add: ghost_params_def)
  have h2: "users (example_client []) (VStr ''ghost@redhat.com'') = None"
    by (simp add: example_client_def)
  have h3: "map_of ghost_params ''product'' = None"
    by (simp add: ghost_params_def)
  show ?thesis
    using h1 h2 h3 resolution_before_write[of "example_client []" ghost_params "[]" VNone]
    by blast
qed


lemma snd_get_release:
  "snd (get_release c n) = [GET (Fmt ''api/v1/releases'' []) [(''filter[name]'', n)]]"
proof -
  have "snd (io_bind (client_get c p q) f) = [GET p q]" if "\<And>x. snd (f x) = []" for p q
    and f :: "response \<Rightarrow> val io"
    using that by (simp add: client_get_def)
  moreover have "snd (raise_for_status u r) = []" "snd (response_json r) = []" for u r
    by (simp_all add: raise_for_status_def response_json_def split: option.splits)
  ultimately show ?thesis
    unfolding get_release_def by (simp add: snd_io_bind_pure)
qed

lemma diff_settings_agree:
  "\<forall>(k, v) \<in> set p. py_lookup r (VStr k) = Some v \<Longrightarrow>
     diff_settings (VDict r) p = io_return []"
  by (induction p) (auto simp: py_getitem_def)

lemma ensure_release_agree:
  assumes "map_of (desired_params params) ''name'' = Some name"
      and "fst (get_release c name) = Inr (VDict release)"
      and "\<forall>(k, v) \<in> set (desired_params params). py_lookup release (VStr k) = Some v"
  shows "ensure_release c h params check_mode =
           (Inr \<lparr>changed = False, stdout_lines = [], diff = None\<rparr>,
            [GET (Fmt ''api/v1/releases'' []) [(''filter[name]'', name)]])"
proof -
  have "(''name'', name) \<in> set (desired_params params)"
    using assms(1) by (rule map_of_SomeD)
  with assms(3) have "map_of release (VStr ''name'') = Some name" by auto
  then have ne: "release \<noteq> []" by auto
  have gr: "get_release c name =
      (Inr (VDict release), [GET (Fmt ''api/v1/releases'' []) [(''filter[name]'', name)]])"
    using assms(2) snd_get_release[of c name] by (simp add: prod_eq_iff)
  show ?thesis
    unfolding ensure_release_def Let_def
    by (simp add: dict_getitem_def assms(1) gr ne diff_settings_agree[OF assms(3)] io_return_def)
qed

text \<open>
  Claim C1. When the release exists and every desired parameter (after the
  \<^verbatim>\<open>None\<close> values are dropped and the empty rule set is turned into \<^verbatim>\<open>None\<close>) has the
  value the normalized remote release has under that key, \<^verbatim>\<open>ensure_release\<close> returns
  \<^verbatim>\<open>changed = False\<close> with no change line, and the only call it makes is the initial read
  of the release: no POST and no PUT, in check mode or not.
\<close>

theorem reconcile_idempotent:
  assumes "map_of (desired_params params) ''name'' = Some name"
      and "fst (get_release c name) = Inr (VDict release)"
      and "\<forall>(k, v) \<in> set (desired_params params). py_lookup release (VStr k) = Some v"
  shows "ensure_release c h params check_mode =
           (Inr \<lparr>changed = False, stdout_lines = [], diff = None\<rparr>,
            [GET (Fmt ''api/v1/releases'' []) [(''filter[name]'', name)]]) \<and>
         writes (ensure_release c h params check_mode) = []"
  using ensure_release_agree[OF assms] by (simp add: writes_def)

lemmas eval_defs2 = eval_defs converged_params_def ghost_params_def example_release_def

lemma example_get_release:
  "get_release (example_client [example_release_data]) (VStr ''rhceph-4.0'') =
     (Inr (to_val example_release),
      [GET (Fmt ''api/v1/releases'' []) [(''filter[name]'', VStr ''rhceph-4.0'')]])"
  by (simp add: eval_defs2)

theorem reconcile_idempotent_witness:
  "ensure_release (example_client [example_release_data]) example_helpers converged_params False =
     (Inr \<lparr>changed = False, stdout_lines = [], diff = None\<rparr>,
      [GET (Fmt ''api/v1/releases'' []) [(''filter[name]'', VStr ''rhceph-4.0'')]]) \<and>
   writes (ensure_release (example_client [example_release_data]) example_helpers
             converged_params False) = []"
proof -
  have h1: "map_of (desired_params converged_params) ''name'' = Some (VStr ''rhceph-4.0'')"
    by (simp add: desired_params_def converged_params_def)
  have h2: "fst (get_release (example_client [example_release_data]) (VStr ''rhceph-4.0'')) =
     Inr (to_val example_release)"
    by (simp add: example_get_release)
  have h3: "\<forall>(k, v) \<in> set (desired_params converged_params).
              py_lookup (map (\<lambda>(k, v). (VStr k, v)) example_release) (VStr k) = Some v"
    by (simp add: desired_params_def converged_params_def example_release_def)
  show ?thesis
    by (rule reconcile_idempotent[OF h1 h2[unfolded to_val_def] h3])
qed


section \<open>Check mode\<close>

lemma ensure_check_log:
  "snd (ensure_release c h p True) =
     (case map_of (desired_params p) ''name'' of None \<Rightarrow> [] | Some name \<Rightarrow> snd (get_release c name))"
  unfolding ensure_release_def Let_def
  by (auto simp: io_bind_cases dict_getitem_def split: sum.splits if_splits option.splits)

lemma ensure_check_fail:
  "fst (ensure_release c h p True) = Inl e \<Longrightarrow>
     ensure_release c h p False = ensure_release c h p True"
  unfolding ensure_release_def Let_def
  by (auto simp: io_bind_cases prod_eq_iff split: sum.splits if_splits)

lemma ensure_check_changed:
  "fst (ensure_release c h p True) = Inr r \<Longrightarrow> fst (ensure_release c h p False) = Inl e \<Longrightarrow>
     changed r"
  unfolding ensure_release_def Let_def
  by (auto simp: io_bind_cases split: sum.splits if_splits)

lemma fst_io_bind:
  "fst (io_bind m f) = (case fst m of Inl e \<Rightarrow> Inl e | Inr x \<Rightarrow> fst (f x))"
  by (simp add: io_bind_cases split: sum.splits)

lemma writes_io_bind_eq:
  "writes (io_bind m f) = (case fst m of Inl e \<Rightarrow> writes m | Inr x \<Rightarrow> writes m @ writes (f x))"
  by (simp add: io_bind_cases writes_def split: sum.splits)

lemma create_release_write:
  assumes "fst (create_release c p) = Inr u"
  shows "length (writes (create_release c p)) = 1"
proof (cases "fst (api_data c p)")
  case (Inl e)
  then show ?thesis using assms create_release_fail[of c p e] by simp
next
  case (Inr d)
  have "writes (create_release c p) = writes (api_data c p) @ [POST (Fmt ''api/v1/releases'' []) d]"
    using create_release_log[OF Inr] by (simp add: writes_def)
  then show ?thesis by simp
qed

lemma edit_release_write:
  assumes "fst (edit_release c rid ds) = Inr u"
  shows "length (writes (edit_release c rid ds)) = 1"
proof (cases "fst (api_data c (difference_params ds))")
  case (Inl e)
  then show ?thesis using assms edit_release_fail[of c ds e rid] by simp
next
  case (Inr d)
  from assms Inr obtain path where path: "fst (format_d ''api/v1/releases/%d'' rid) = Inr path"
    by (cases "fst (format_d ''api/v1/releases/%d'' rid)")
      (auto simp: edit_release_def io_bind_cases)
  have "writes (edit_release c rid ds) =
          writes (api_data c (difference_params ds)) @ [PUT path d]"
    using edit_release_log[OF Inr, of rid] path by (simp add: writes_def)
  then show ?thesis by simp
qed

lemma ensure_release_write_count:
  "fst (ensure_release c h p False) = Inr r \<Longrightarrow>
     length (writes (ensure_release c h p False)) = (if changed r then 1 else 0)"
  unfolding ensure_release_def Let_def
  by (auto simp: fst_io_bind writes_io_bind_eq writes_pure create_release_write
      edit_release_write split: sum.splits if_splits)

lemma example_update_run:
  "ensure_release (example_client [example_release_data]) example_helpers example_params False =
   (Inr \<lparr>changed = True,
         stdout_lines =
           [Fmt ''changing %s from %s to %s'' [VStr ''active'', VBool True, VBool False]],
         diff =
           Some (to_val
              [(''before'', to_val example_release),
               (''after'',
                to_val
                 [(''name'', VStr ''rhceph-4.0''),
                  (''product_versions'', VList [VStr ''RHCEPH-4.0-RHEL-8'']),
                  (''active'', VBool False)])])\<rparr>,
    [GET (Fmt ''api/v1/releases'' []) [(''filter[name]'', VStr ''rhceph-4.0'')],
     GET (Fmt ''product_versions/%s.json'' [VStr ''RHCEPH-4.0-RHEL-8'']) [],
     PUT (Fmt ''api/v1/releases/%d'' [VInt 7])
       (to_val [(''release'', to_val [(''isactive'', VBool False),
                                    (''product_version_ids'', VList [VInt 929])])])])"
  by (simp add: eval_defs2)

lemma example_ghost_check_run:
  "ensure_release (example_client []) example_helpers ghost_params True =
   (Inr \<lparr>changed = True,
         stdout_lines = [Fmt ''created %s'' [VStr ''rhceph-4.0'']],
         diff = Some (to_val [(''before'', VNone), (''after'', to_val ghost_params)])\<rparr>,
    [GET (Fmt ''api/v1/releases'' []) [(''filter[name]'', VStr ''rhceph-4.0'')]])"
  by (simp add: eval_defs2)

lemma example_ghost_run:
  "ensure_release (example_client []) example_helpers ghost_params False =
   (Inl (ProgramManagerNotFoundError (VStr ''ghost@redhat.com'')),
    [GET (Fmt ''api/v1/releases'' []) [(''filter[name]'', VStr ''rhceph-4.0'')],
     LOOKUP ''user'' (VStr ''ghost@redhat.com'')])"
  by (simp add: eval_defs2)

lemma example_ghost_update_check_run:
  "ensure_release (example_client [example_release_data]) example_helpers ghost_params True =
   (Inr \<lparr>changed = True,
         stdout_lines =
           [Fmt ''changing %s from %s to %s''
              [VStr ''program_manager'', VNone, VStr ''ghost@redhat.com'']],
         diff = Some (to_val [(''before'', to_val example_release),
                              (''after'', to_val ghost_params)])\<rparr>,
    [GET (Fmt ''api/v1/releases'' []) [(''filter[name]'', VStr ''rhceph-4.0'')]])"
  by (simp add: eval_defs2)

lemma example_ghost_update_run:
  "ensure_release (example_client [example_release_data]) example_helpers ghost_params False =
   (Inl (ProgramManagerNotFoundError (VStr ''ghost@redhat.com'')),
    [GET (Fmt ''api/v1/releases'' []) [(''filter[name]'', VStr ''rhceph-4.0'')],
     LOOKUP ''user'' (VStr ''ghost@redhat.com'')])"
  by (simp add: eval_defs2)

lemma example_no_name_run:
  "ensure_release (example_client []) example_helpers [] True =
     (Inl (KeyError (VStr ''name'')), [])"
  by (simp add: eval_defs2)

text \<open>
  Claim C2 says that for every input the result of a check-mode run reports the exact
  change that would occur, the same flag, lines and diff as the run without check mode
  would report. Check mode skips \<^verbatim>\<open>create_release\<close> and \<^verbatim>\<open>edit_release\<close> as a whole, and
  with them the translation and id resolution of \<^verbatim>\<open>api_data\<close>. For a release that does
  not exist and a program manager that the service does not know (scenario D of the
  spec), the check-mode run reports that the release is created, while the run without
  check mode raises ProgramManagerNotFoundError, creates nothing and reports nothing.
\<close>

theorem check_mode_preview_counterexample:
  "fst (ensure_release (example_client []) example_helpers ghost_params True) =
     Inr \<lparr>changed = True,
          stdout_lines = [Fmt ''created %s'' [VStr ''rhceph-4.0'']],
          diff = Some (to_val [(''before'', VNone), (''after'', to_val ghost_params)])\<rparr> \<and>
   fst (ensure_release (example_client []) example_helpers ghost_params False) =
     Inl (ProgramManagerNotFoundError (VStr ''ghost@redhat.com'')) \<and>
   writes (ensure_release (example_client []) example_helpers ghost_params False) = []"
  by (simp add: example_ghost_check_run example_ghost_run writes_def)

text \<open>
  Claim C2, amended. In check mode \<^verbatim>\<open>ensure_release\<close> makes no POST and no PUT: the only
  call it can make is the read of \<^verbatim>\<open>get_release\<close>, so \<^verbatim>\<open>create_release\<close> and
  \<^verbatim>\<open>edit_release\<close> are never reached. Its calls are the first calls of the run without
  check mode. Whenever the run without check mode returns a result, the check-mode run
  returns the same result (changed flag, lines and diff), and the run without check mode
  has made exactly one write when the result says changed and none otherwise.
\<close>

theorem check_mode_preview:
  "writes (ensure_release c h params True) = [] \<and>
   snd (ensure_release c h params True) =
     (case map_of (desired_params params) ''name'' of
        None \<Rightarrow> [] | Some name \<Rightarrow> snd (get_release c name)) \<and>
   (\<exists>l. snd (ensure_release c h params False) = snd (ensure_release c h params True) @ l) \<and>
   (\<forall>r. fst (ensure_release c h params False) = Inr r \<longrightarrow>
        fst (ensure_release c h params True) = Inr r \<and>
        length (writes (ensure_release c h params False)) = (if changed r then 1 else 0))"
proof (intro conjI allI impI)
  show "writes (ensure_release c h params True) = []"
    by (rule ensure_check_no_writes)
  show "snd (ensure_release c h params True) =
     (case map_of (desired_params params) ''name'' of
        None \<Rightarrow> [] | Some name \<Rightarrow> snd (get_release c name))"
    by (rule ensure_check_log)
  show "\<exists>l. snd (ensure_release c h params False) = snd (ensure_release c h params True) @ l"
    by (rule ensure_check_prefix)
  show "fst (ensure_release c h params True) = Inr r"
    if "fst (ensure_release c h params False) = Inr r" for r
    using that by (rule ensure_check_same)
  show "length (writes (ensure_release c h params False)) = (if changed r then 1 else 0)"
    if "fst (ensure_release c h params False) = Inr r" for r
    using that by (rule ensure_release_write_count)
qed

theorem check_mode_preview_witness:
  "fst (ensure_release (example_client [example_release_data]) example_helpers
          example_params False) =
     fst (ensure_release (example_client [example_release_data]) example_helpers
          example_params True) \<and>
   changed (projr (fst (ensure_release (example_client [example_release_data])
      example_helpers example_params True))) \<and>
   writes (ensure_release (example_client [example_release_data]) example_helpers
          example_params True) = [] \<and>
   length (writes (ensure_release (example_client [example_release_data]) example_helpers
          example_params False)) = 1"
proof -
  let ?run = "ensure_release (example_client [example_release_data]) example_helpers
                example_params"
  obtain r where h: "fst (?run False) = Inr r" and ch: "changed r"
    by (simp add: example_update_run)
  note T = check_mode_preview[of "example_client [example_release_data]" example_helpers
        example_params]
  have "fst (?run True) = Inr r"
    using h T by blast
  moreover have "writes (?run True) = []"
    using T by blast
  moreover have "length (writes (?run False)) = (if changed r then 1 else 0)"
    using h T by blast
  ultimately show ?thesis using h ch by simp
qed

text \<open>
  Claim C9 says that for every client state and every parameter mapping the result of
  \<^verbatim>\<open>ensure_release\<close> is identical with and without check mode. The run without check mode
  goes on into \<^verbatim>\<open>create_release\<close> or \<^verbatim>\<open>edit_release\<close> before it returns, and what raises
  there takes the place of the result. For the example release and a desired program
  manager that the service does not know, the check-mode run returns a result with
  \<^verbatim>\<open>changed = True\<close>, and the run without check mode returns no result: it raises
  ProgramManagerNotFoundError.
\<close>

theorem check_mode_noninterference_counterexample:
  "fst (ensure_release (example_client [example_release_data]) example_helpers
          ghost_params True) =
     Inr \<lparr>changed = True,
          stdout_lines =
            [Fmt ''changing %s from %s to %s''
               [VStr ''program_manager'', VNone, VStr ''ghost@redhat.com'']],
          diff = Some (to_val [(''before'', to_val example_release),
                               (''after'', to_val ghost_params)])\<rparr> \<and>
   fst (ensure_release (example_client [example_release_data]) example_helpers
          ghost_params False) =
     Inl (ProgramManagerNotFoundError (VStr ''ghost@redhat.com''))"
  by (simp add: example_ghost_update_check_run example_ghost_update_run)

text \<open>
  Claim C9, amended. When both runs of \<^verbatim>\<open>ensure_release\<close> return, with and without check
  mode, the results are equal. When the check-mode run returns a result, the other run
  returns the same result or raises, and it can raise only when the check-mode result
  says changed. When the check-mode run raises, the other run raises the same error
  after the same calls.
\<close>

theorem check_mode_noninterference:
  "(\<forall>r r'. fst (ensure_release c h params True) = Inr r \<and>
            fst (ensure_release c h params False) = Inr r' \<longrightarrow> r = r') \<and>
   (\<forall>r. fst (ensure_release c h params True) = Inr r \<longrightarrow>
        fst (ensure_release c h params False) = Inr r \<or>
        (changed r \<and> (\<exists>e. fst (ensure_release c h params False) = Inl e))) \<and>
   (\<forall>e. fst (ensure_release c h params True) = Inl e \<longrightarrow>
        ensure_release c h params False = ensure_release c h params True)"
proof (intro conjI allI impI)
  fix r r'
  assume a: "fst (ensure_release c h params True) = Inr r \<and>
             fst (ensure_release c h params False) = Inr r'"
  then have "fst (ensure_release c h params True) = Inr r'"
    using ensure_check_same[of c h params r'] by simp
  with a show "r = r'" by simp
next
  fix r
  assume a: "fst (ensure_release c h params True) = Inr r"
  show "fst (ensure_release c h params False) = Inr r \<or>
        (changed r \<and> (\<exists>e. fst (ensure_release c h params False) = Inl e))"
  proof (cases "fst (ensure_release c h params False)")
    case (Inl e)
    with a have "changed r" by (rule ensure_check_changed)
    with Inl show ?thesis by simp
  next
    case (Inr r')
    then have "fst (ensure_release c h params True) = Inr r'" by (rule ensure_check_same)
    with a Inr show ?thesis by simp
  qed
next
  fix e
  assume "fst (ensure_release c h params True) = Inl e"
  then show "ensure_release c h params False = ensure_release c h params True"
    by (rule ensure_check_fail)
qed

theorem check_mode_noninterference_witness:
  "fst (ensure_release (example_client [example_release_data]) example_helpers
          example_params True) =
     fst (ensure_release (example_client [example_release_data]) example_helpers
          example_params False) \<and>
   (\<exists>r. fst (ensure_release (example_client [example_release_data]) example_helpers
          example_params True) = Inr r) \<and>
   ensure_release (example_client []) example_helpers [] False =
     (Inl (KeyError (VStr ''name'')), [])"
proof -
  let ?run = "ensure_release (example_client [example_release_data]) example_helpers
                example_params"
  obtain r' where h: "fst (?run False) = Inr r'"
    by (simp add: example_update_run)
  note T = check_mode_noninterference[of "example_client [example_release_data]"
      example_helpers example_params]
  note U = check_mode_noninterference[of "example_client []" example_helpers "[]"]
  have "\<exists>r. fst (?run True) = Inr r"
    using h by (auto dest: ensure_check_same)
  then obtain r where g: "fst (?run True) = Inr r" ..
  have "r = r'" using T g h by blast
  moreover have "fst (ensure_release (example_client []) example_helpers [] True) =
      Inl (KeyError (VStr ''name''))"
    by (simp add: example_no_name_run)
  then have "ensure_release (example_client []) example_helpers [] False =
      ensure_release (example_client []) example_helpers [] True"
    using U by blast
  ultimately show ?thesis using g h by (simp add: example_no_name_run)
qed
section \<open>The version resolver\<close>

lemma snd_product_version_lookup:
  "snd (product_version_lookup c n) = [GET (Fmt ''product_versions/%s.json'' [n]) []]"
proof -
  have "snd (raise_for_status u r) = []" "snd (response_json r) = []" for u r
    by (simp_all add: raise_for_status_def response_json_def split: option.splits)
  then show ?thesis
    unfolding product_version_lookup_def by (simp add: client_get_def snd_io_bind_pure)
qed

lemma product_version_ids_loop_ok:
  "list_all2 (\<lambda>n i. fst (product_version_lookup c n) = Inr i) ns ids \<Longrightarrow>
     product_version_ids_loop c acc ns =
       (Inr (acc @ ids), map (\<lambda>n. GET (Fmt ''product_versions/%s.json'' [n]) []) ns)"
proof (induction ns arbitrary: acc ids)
  case Nil
  then show ?case by (simp add: io_return_def)
next
  case (Cons n ns)
  then obtain i ids' where ids: "ids = i # ids'"
    and i: "fst (product_version_lookup c n) = Inr i"
    and rest: "list_all2 (\<lambda>n i. fst (product_version_lookup c n) = Inr i) ns ids'"
    by (auto simp: list_all2_Cons1)
  show ?case
    using Cons.IH[OF rest, of "acc @ [i]"] i snd_product_version_lookup[of c n]
    by (simp add: io_bind_cases ids)
qed

lemma product_version_ids_loop_fail:
  "list_all2 (\<lambda>n i. fst (product_version_lookup c n) = Inr i) pre ids \<Longrightarrow>
   fst (product_version_lookup c n) = Inl e \<Longrightarrow>
     product_version_ids_loop c acc (pre @ n # rest) =
       (Inl e, map (\<lambda>n. GET (Fmt ''product_versions/%s.json'' [n]) []) (pre @ [n]))"
proof (induction pre arbitrary: acc ids)
  case Nil
  then show ?case
    using snd_product_version_lookup[of c n] by (simp add: io_bind_cases)
next
  case (Cons m pre)
  then obtain i ids' where ids: "ids = i # ids'"
    and i: "fst (product_version_lookup c m) = Inr i"
    and rest: "list_all2 (\<lambda>n i. fst (product_version_lookup c n) = Inr i) pre ids'"
    by (auto simp: list_all2_Cons1)
  show ?case
    using Cons.IH[OF rest Cons.prems(2), of "acc @ [i]"] i snd_product_version_lookup[of c m]
    by (simp add: io_bind_cases)
qed

lemma product_version_lookup_http_error:
  "400 \<le> status_code (get c (Fmt ''product_versions/%s.json'' [n]) []) \<Longrightarrow>
   status_code (get c (Fmt ''product_versions/%s.json'' [n]) []) < 600 \<Longrightarrow>
   fst (product_version_lookup c n) =
     Inl (HTTPError (status_code (get c (Fmt ''product_versions/%s.json'' [n]) []))
            (Fmt ''product_versions/%s.json'' [n]))"
  by (simp add: product_version_lookup_def client_get_def raise_for_status_def)

text \<open>
  Claim C7. \<^verbatim>\<open>get_product_version_ids\<close> makes one lookup per name, in the order of the
  names. When every lookup succeeds, the result is the list of the ids in the order of
  the names. At the first name whose lookup raises, it raises that error at once: the
  names after it are not looked up and no list is returned. A lookup that the service
  answers with a 4xx or 5xx status raises an HTTPError that carries the requested path,
  which holds the name.
\<close>

theorem version_resolver_order:
  "(list_all2 (\<lambda>n i. fst (product_version_lookup c n) = Inr i) names ids \<longrightarrow>
      get_product_version_ids c (VList names) =
        (Inr (VList ids), map (\<lambda>n. GET (Fmt ''product_versions/%s.json'' [n]) []) names)) \<and>
   (list_all2 (\<lambda>n i. fst (product_version_lookup c n) = Inr i) pre ids \<and>
    fst (product_version_lookup c name) = Inl e \<longrightarrow>
      get_product_version_ids c (VList (pre @ name # rest)) =
        (Inl e, map (\<lambda>n. GET (Fmt ''product_versions/%s.json'' [n]) []) (pre @ [name]))) \<and>
   (400 \<le> status_code (get c (Fmt ''product_versions/%s.json'' [name]) []) \<and>
    status_code (get c (Fmt ''product_versions/%s.json'' [name]) []) < 600 \<longrightarrow>
      fst (product_version_lookup c name) =
        Inl (HTTPError (status_code (get c (Fmt ''product_versions/%s.json'' [name]) []))
               (Fmt ''product_versions/%s.json'' [name])))"
proof (intro conjI impI)
  assume "list_all2 (\<lambda>n i. fst (product_version_lookup c n) = Inr i) names ids"
  from product_version_ids_loop_ok[OF this, of "[]"]
  show "get_product_version_ids c (VList names) =
        (Inr (VList ids), map (\<lambda>n. GET (Fmt ''product_versions/%s.json'' [n]) []) names)"
    by (simp add: get_product_version_ids_def io_return_def)
next
  assume "list_all2 (\<lambda>n i. fst (product_version_lookup c n) = Inr i) pre ids \<and>
    fst (product_version_lookup c name) = Inl e"
  then have a: "list_all2 (\<lambda>n i. fst (product_version_lookup c n) = Inr i) pre ids"
    and b: "fst (product_version_lookup c name) = Inl e" by simp_all
  from product_version_ids_loop_fail[OF a b, of "[]" rest]
  show "get_product_version_ids c (VList (pre @ name # rest)) =
        (Inl e, map (\<lambda>n. GET (Fmt ''product_versions/%s.json'' [n]) []) (pre @ [name]))"
    by (simp add: get_product_version_ids_def)
next
  assume "400 \<le> status_code (get c (Fmt ''product_versions/%s.json'' [name]) []) \<and>
    status_code (get c (Fmt ''product_versions/%s.json'' [name]) []) < 600"
  then show "fst (product_version_lookup c name) =
        Inl (HTTPError (status_code (get c (Fmt ''product_versions/%s.json'' [name]) []))
               (Fmt ''product_versions/%s.json'' [name]))"
    using product_version_lookup_http_error[of c name] by simp
qed

theorem version_resolver_order_witness:
  "get_product_version_ids (example_client []) (VList [VStr ''RHCEPH-4.0-RHEL-8'']) =
     (Inr (VList [VInt 929]),
      [GET (Fmt ''product_versions/%s.json'' [VStr ''RHCEPH-4.0-RHEL-8'']) []]) \<and>
   get_product_version_ids (example_client [])
       (VList [VStr ''RHCEPH-4.0-RHEL-8'', VStr ''RHEL-0'', VStr ''RHEL-1'']) =
     (Inl (HTTPError 404 (Fmt ''product_versions/%s.json'' [VStr ''RHEL-0''])),
      [GET (Fmt ''product_versions/%s.json'' [VStr ''RHCEPH-4.0-RHEL-8'']) [],
       GET (Fmt ''product_versions/%s.json'' [VStr ''RHEL-0'']) []])"
proof -
  let ?c = "example_client []"
  have ok: "list_all2 (\<lambda>n i. fst (product_version_lookup ?c n) = Inr i)
              [VStr ''RHCEPH-4.0-RHEL-8''] [VInt 929]"
    by (simp add: eval_defs)
  have st: "status_code (get ?c (Fmt ''product_versions/%s.json'' [VStr ''RHEL-0'']) []) = 404"
    by (simp add: example_client_def)
  note T = version_resolver_order[where c = ?c and names = "[VStr ''RHCEPH-4.0-RHEL-8'']"
      and ids = "[VInt 929]" and pre = "[VStr ''RHCEPH-4.0-RHEL-8'']"
      and name = "VStr ''RHEL-0''" and rest = "[VStr ''RHEL-1'']"
      and e = "HTTPError 404 (Fmt ''product_versions/%s.json'' [VStr ''RHEL-0''])"]
  have bad: "fst (product_version_lookup ?c (VStr ''RHEL-0'')) =
      Inl (HTTPError 404 (Fmt ''product_versions/%s.json'' [VStr ''RHEL-0'']))"
    using T st by simp
  show ?thesis using T ok bad by simp
qed

section \<open>The outcomes of get_release\<close>

lemma get_release_results:
  assumes "\<not> (400 \<le> status_code (get c (Fmt ''api/v1/releases'' []) [(''filter[name]'', name)]) \<and>
              status_code (get c (Fmt ''api/v1/releases'' []) [(''filter[name]'', name)]) < 600)"
      and "json (get c (Fmt ''api/v1/releases'' []) [(''filter[name]'', name)]) = Some (VDict data)"
      and "py_lookup data (VStr ''data'') = Some (VList results)"
  shows "fst (get_release c name) =
           (case results of
              [] \<Rightarrow> Inr VNone
            | [x] \<Rightarrow> (case fst (normalize_release x) of
                        Inl e \<Rightarrow> Inl e | Inr release \<Rightarrow> Inr (VDict release))
            | _ \<Rightarrow> Inl (ValueError (Fmt ''multiple %s releases found'' [name])))"
  using assms
  by (auto simp: get_release_def client_get_def raise_for_status_def response_json_def
      py_getitem_def io_bind_cases split: list.splits sum.splits)

text \<open>
  Claim C6. For a response to the name-filtered search that is not an HTTP error and
  whose \<^verbatim>\<open>data\<close> is a list, \<^verbatim>\<open>get_release\<close> returns \<^verbatim>\<open>None\<close> when the list is empty,
  raises the error "multiple ... releases found" when the list has more than one
  element, and returns the normalized mapping of the element when the list has exactly
  one (or the error that the normalization of that element raises).
\<close>

theorem get_release_outcomes:
  assumes "\<not> (400 \<le> status_code (get c (Fmt ''api/v1/releases'' []) [(''filter[name]'', name)]) \<and>
              status_code (get c (Fmt ''api/v1/releases'' []) [(''filter[name]'', name)]) < 600)"
      and "json (get c (Fmt ''api/v1/releases'' []) [(''filter[name]'', name)]) = Some (VDict data)"
      and "py_lookup data (VStr ''data'') = Some (VList results)"
  shows "(results = [] \<longrightarrow> fst (get_release c name) = Inr VNone) \<and>
         (1 < length results \<longrightarrow>
            fst (get_release c name) =
              Inl (ValueError (Fmt ''multiple %s releases found'' [name]))) \<and>
         (\<forall>x. results = [x] \<longrightarrow>
            fst (get_release c name) =
              (case fst (normalize_release x) of
                 Inl e \<Rightarrow> Inl e | Inr release \<Rightarrow> Inr (VDict release)))"
  using get_release_results[OF assms]
  by (cases results rule: list.exhaust) (auto split: list.splits)

lemma example_normalize_release:
  "fst (normalize_release example_release_data) =
     Inr (map (\<lambda>(k, v). (VStr k, v)) example_release)"
  by (simp add: eval_defs example_release_def)

lemma normalize_pair_list:
  "fst (normalize_release (bare_release_data
          (VList [VList [VStr ''is_active'', VBool True],
                  VList [VInt 1, VStr ''one''],
                  VList [VStr ''ship_date'', VNone]]))) =
     Inr [(VStr ''id'', VInt 7), (VInt 1, VStr ''one''), (VStr ''ship_date'', VNone),
          (VStr ''product'', VNone), (VStr ''program_manager'', VNone),
          (VStr ''state_machine_rule_set'', VNone), (VStr ''brew_tags'', VList []),
          (VStr ''product_versions'', VList []), (VStr ''active'', VBool True)]"
  by (simp add: eval_defs bare_release_data_def)

lemma normalize_empty_attributes:
  "fst (normalize_release (bare_release_data (VList []))) = Inl (KeyError (VStr ''is_active''))"
  "fst (normalize_release (bare_release_data (VStr []))) = Inl (KeyError (VStr ''is_active''))"
  "fst (normalize_release (bare_release_data (to_val []))) = Inl (KeyError (VStr ''is_active''))"
  by (simp_all add: eval_defs bare_release_data_def)

lemma normalize_bad_attributes:
  "fst (normalize_release (bare_release_data VNone)) = Inl TypeError"
  "fst (normalize_release (bare_release_data (VInt 3))) = Inl TypeError"
  "fst (normalize_release (bare_release_data (VList [VList [VStr ''name'']]))) =
     Inl (ValueError
            (Fmt ''dictionary update sequence element #%d has length %d; 2 is required''
               [VInt 0, VInt 1]))"
  "fst (normalize_release (bare_release_data (VList [VList [VList [], VNone]]))) =
     Inl TypeError"
  by (simp_all add: eval_defs bare_release_data_def)

theorem get_release_outcomes_witness:
  "fst (get_release (example_client []) (VStr ''rhceph-4.0'')) = Inr VNone \<and>
   fst (get_release (example_client [example_release_data, example_release_data])
          (VStr ''rhceph-4.0'')) =
     Inl (ValueError (Fmt ''multiple %s releases found'' [VStr ''rhceph-4.0''])) \<and>
   fst (get_release (example_client [example_release_data]) (VStr ''rhceph-4.0'')) =
     Inr (to_val example_release)"
proof -
  have h1: "\<not> (400 \<le> status_code (get (example_client rs) (Fmt ''api/v1/releases'' [])
                    [(''filter[name]'', VStr ''rhceph-4.0'')]) \<and>
              status_code (get (example_client rs) (Fmt ''api/v1/releases'' [])
                    [(''filter[name]'', VStr ''rhceph-4.0'')]) < 600)" for rs
    by (simp add: example_client_def)
  have h2: "json (get (example_client rs) (Fmt ''api/v1/releases'' [])
              [(''filter[name]'', VStr ''rhceph-4.0'')]) =
            Some (VDict [(VStr ''data'', VList rs)])"
    for rs
    by (simp add: example_client_def to_val_def)
  have h3: "py_lookup [(VStr ''data'', VList rs)] (VStr ''data'') = Some (VList rs)"
    for rs :: "val list"
    by simp
  have a: "fst (get_release (example_client []) (VStr ''rhceph-4.0'')) = Inr VNone"
    using get_release_outcomes[OF h1 h2 h3, of "[]"] by simp
  have b: "fst (get_release (example_client [example_release_data, example_release_data])
          (VStr ''rhceph-4.0'')) =
     Inl (ValueError (Fmt ''multiple %s releases found'' [VStr ''rhceph-4.0'']))"
    using get_release_outcomes[OF h1 h2 h3, of "[example_release_data, example_release_data]"]
    by simp
  have c: "fst (get_release (example_client [example_release_data]) (VStr ''rhceph-4.0'')) =
     (case fst (normalize_release example_release_data) of
        Inl e \<Rightarrow> Inl e | Inr release \<Rightarrow> Inr (VDict release))"
    using get_release_outcomes[OF h1 h2 h3, of "[example_release_data]"] by simp
  show ?thesis using a b c by (simp add: example_normalize_release to_val_def)
qed

section \<open>List relationships in the normalized release\<close>

lemma fst_io_bind_InrE:
  assumes "fst (io_bind m f) = Inr y"
  obtains x where "fst m = Inr x" "fst (f x) = Inr y"
  using assms by (auto simp: io_bind_cases split: sum.splits)


lemma map_of_delete [simp]: "map_of (AList.delete k d) = (map_of d)(k := None)"
  by (rule delete_conv')


section \<open>The product_versions entry of every update\<close>

lemma api_data_program_manager_keeps:
  "fst (api_data_program_manager c p) = Inr r \<Longrightarrow> k \<noteq> ''program_manager'' \<Longrightarrow>
     k \<noteq> ''program_manager_id'' \<Longrightarrow> map_of r k = map_of p k"
  by (auto simp: api_data_program_manager_def io_bind_cases fst_dict_pop dict_contains_def
      split: if_splits sum.splits option.splits)

lemma api_data_active_keeps:
  "fst (api_data_active p) = Inr r \<Longrightarrow> k \<noteq> ''active'' \<Longrightarrow> k \<noteq> ''isactive'' \<Longrightarrow>
     map_of r k = map_of p k"
  by (auto simp: api_data_active_def io_bind_cases fst_dict_pop dict_contains_def
      split: if_splits sum.splits option.splits)

lemma api_data_supports_component_acl_keeps:
  "fst (api_data_supports_component_acl p) = Inr r \<Longrightarrow> k \<noteq> ''supports_component_acl'' \<Longrightarrow>
     k \<noteq> ''disable_acl'' \<Longrightarrow> map_of r k = map_of p k"
  by (auto simp: api_data_supports_component_acl_def io_bind_cases fst_dict_pop
      dict_contains_def split: if_splits sum.splits option.splits)

lemma api_data_product_versions_sets:
  "fst (api_data_product_versions c p) = Inr r \<Longrightarrow> map_of p ''product_versions'' \<noteq> None \<Longrightarrow>
     map_of r ''product_version_ids'' \<noteq> None"
  by (auto simp: api_data_product_versions_def io_bind_cases fst_dict_pop dict_contains_def
      split: if_splits sum.splits option.splits)

lemma api_data_state_machine_rule_set_keeps:
  "fst (api_data_state_machine_rule_set c p) = Inr r \<Longrightarrow> k \<noteq> ''state_machine_rule_set'' \<Longrightarrow>
     k \<noteq> ''state_machine_rule_set_id'' \<Longrightarrow> map_of r k = map_of p k"
  by (auto simp: api_data_state_machine_rule_set_def io_bind_cases fst_dict_pop
      dict_contains_def split: if_splits sum.splits option.splits)

lemma api_data_blocker_flags_keeps:
  "fst (api_data_blocker_flags p) = Inr r \<Longrightarrow> k \<noteq> ''blocker_flags'' \<Longrightarrow>
     map_of r k = map_of p k"
  by (auto simp: api_data_blocker_flags_def io_bind_cases fst_dict_getitem dict_contains_def
      split: if_splits sum.splits option.splits)

lemma api_data_payload:
  assumes "fst (api_data c p) = Inr data" and "map_of p ''product_versions'' \<noteq> None"
  shows "\<exists>dd rel ids. data = to_val dd \<and> map_of dd ''release'' = Some (to_val rel) \<and>
           map_of rel ''product_version_ids'' = Some ids"
proof -
  from assms(1) obtain r1 r2 r3 r4 r5 r6 r7 where
    s1: "fst (api_data_product c p) = Inr r1" and
    s2: "fst (api_data_program_manager c r1) = Inr r2" and
    s3: "fst (api_data_active r2) = Inr r3" and
    s4: "fst (api_data_supports_component_acl r3) = Inr r4" and
    s5: "fst (api_data_product_versions c r4) = Inr r5" and
    s6: "fst (api_data_state_machine_rule_set c r5) = Inr r6" and
    s7: "fst (api_data_blocker_flags r6) = Inr r7" and
    fin: "fst (if dict_contains ''type'' p
       then io_bind (dict_getitem p ''type'') (\<lambda>t.
              io_return (to_val (dict_set ''type'' t [(''release'', to_val r7)])))
       else io_return (to_val [(''release'', to_val r7)])) = Inr data"
    unfolding api_data_def by (elim fst_io_bind_InrE)
  have "map_of r4 ''product_versions'' \<noteq> None"
    using assms(2) api_data_product_keeps[OF s1, of "''product_versions''"]
      api_data_program_manager_keeps[OF s2, of "''product_versions''"]
      api_data_active_keeps[OF s3, of "''product_versions''"]
      api_data_supports_component_acl_keeps[OF s4, of "''product_versions''"]
    by simp
  then have "map_of r5 ''product_version_ids'' \<noteq> None"
    using s5 by (rule api_data_product_versions_sets[rotated])
  then have "map_of r7 ''product_version_ids'' \<noteq> None"
    using api_data_state_machine_rule_set_keeps[OF s6, of "''product_version_ids''"]
      api_data_blocker_flags_keeps[OF s7, of "''product_version_ids''"]
    by simp
  then obtain ids where "map_of r7 ''product_version_ids'' = Some ids" by auto
  moreover have "\<exists>dd. data = to_val dd \<and> map_of dd ''release'' = Some (to_val r7)"
    using fin by (auto simp: io_bind_cases fst_dict_getitem split: if_splits option.splits)
  ultimately show ?thesis by blast
qed

lemma map_of_difference_params_fold:
  "map_of (fold (\<lambda>(key, _, new). dict_set key new) ds acc) k \<noteq> None \<longleftrightarrow>
     k \<in> fst ` set ds \<or> map_of acc k \<noteq> None"
  by (induction ds arbitrary: acc) (auto split: prod.splits)

lemma map_of_difference_params:
  "map_of (difference_params ds) k \<noteq> None \<longleftrightarrow> k \<in> fst ` set ds"
  using map_of_difference_params_fold[of ds "[]" k] by (simp add: difference_params_def)

lemma no_put_if_no_writes: "writes m = [] \<Longrightarrow> PUT path data \<notin> set (snd m)"
  by (auto simp: writes_def filter_empty_conv)

lemma edit_release_put:
  assumes "PUT path data \<in> set (snd (edit_release c release_id ds))"
  shows "fst (api_data c (difference_params ds)) = Inr data"
proof (cases "fst (api_data c (difference_params ds))")
  case (Inl e)
  then have "writes (edit_release c release_id ds) = []"
    using edit_release_fail by blast
  then show ?thesis using assms no_put_if_no_writes by blast
next
  case (Inr d)
  have "PUT path data \<notin> set (snd (api_data c (difference_params ds)))"
    by (rule no_put_if_no_writes) simp
  then show ?thesis
    using assms edit_release_log[OF Inr, of release_id] Inr
    by (auto split: sum.splits)
qed

lemma with_product_versions_key:
  "fst (with_product_versions p ds) = Inr ds' \<Longrightarrow> ''product_versions'' \<in> fst ` set ds'"
  by (auto simp: with_product_versions_def io_bind_cases fst_dict_getitem
      split: if_splits option.splits sum.splits)

lemma pure_eq_return: "snd m = [] \<Longrightarrow> fst m = Inr x \<Longrightarrow> m = io_return x"
  by (simp add: io_return_def prod_eq_iff)

lemma create_release_no_put: "PUT path data \<notin> set (snd (create_release c p))"
proof (cases "fst (api_data c p)")
  case (Inl e)
  then have "writes (create_release c p) = []" using create_release_fail by blast
  then show ?thesis by (rule no_put_if_no_writes)
next
  case (Inr d)
  have "PUT path data \<notin> set (snd (api_data c p))"
    by (rule no_put_if_no_writes) simp
  then show ?thesis using create_release_log[OF Inr] by simp
qed

lemma get_release_no_put: "PUT path data \<notin> set (snd (get_release c n))"
  by (simp add: snd_get_release)

lemma ensure_release_put:
  assumes "PUT path data \<in> set (snd (ensure_release c h p cm))"
  shows "\<exists>rid ds'. ''product_versions'' \<in> fst ` set ds' \<and>
           PUT path data \<in> set (snd (edit_release c rid ds'))"
  using assms create_release_no_put[of path data c] get_release_no_put[of path data c]
  unfolding ensure_release_def Let_def
  apply (auto simp: io_bind_cases split: sum.splits if_splits)
   apply (blast dest: with_product_versions_key)+
  done

lemma ensure_release_update:
  assumes name: "map_of (desired_params params) ''name'' = Some name"
      and rel: "fst (get_release c name) = Inr release" "truthy release"
      and ds: "fst (diff_settings release (desired_params params)) = Inr ds" "ds \<noteq> []"
      and nk: "''product_versions'' \<notin> fst ` set ds"
      and pv: "map_of (desired_params params) ''product_versions'' = Some pv"
      and ch: "describe_changes h ds = Inr changes"
      and df: "fst (prepare_diff_data h release (desired_params params)) = Inr d"
      and rid: "fst (getitem release ''id'') = Inr release_id"
  shows "ensure_release c h params False =
           ((case fst (edit_release c release_id (ds @ [(''product_versions'', pv, pv)])) of
               Inl e \<Rightarrow> Inl e
             | Inr _ \<Rightarrow> Inr \<lparr>changed = True, stdout_lines = changes, diff = Some d\<rparr>),
            snd (get_release c name) @
            snd (edit_release c release_id (ds @ [(''product_versions'', pv, pv)])))"
proof -
  have g: "get_release c name = (Inr release, snd (get_release c name))"
    using rel(1) by (simp add: prod_eq_iff)
  have d1: "diff_settings release (desired_params params) = io_return ds"
    using ds(1) by (intro pure_eq_return) simp_all
  have d2: "prepare_diff_data h release (desired_params params) = io_return d"
    using df by (intro pure_eq_return) simp_all
  have d3: "getitem release ''id'' = io_return release_id"
    using rid by (intro pure_eq_return) simp_all
  have d4: "with_product_versions (desired_params params) ds =
              io_return (ds @ [(''product_versions'', pv, pv)])"
    using nk pv by (simp add: with_product_versions_def dict_getitem_def)
  have d5: "dict_getitem (desired_params params) ''name'' = io_return name"
    using name by (simp add: dict_getitem_def)
  show ?thesis
    unfolding ensure_release_def Let_def d5 io_bind_return
    apply (subst g)
    apply (simp add: rel(2) d1 ds(2) ch lift_def d2 d3 d4 io_return_def io_bind_cases
        split: sum.splits)
    done
qed

lemma diff_settings_no_noop:
  "fst (diff_settings release p) = Inr ds \<Longrightarrow> (k, v, v) \<notin> set ds"
proof (induction p arbitrary: ds)
  case Nil
  then show ?case by simp
next
  case (Cons a p)
  obtain k' new' where a: "a = (k', new')" by (cases a)
  from Cons.prems obtain cur' ds' where
    d: "fst (diff_settings release p) = Inr ds'"
    and ds: "ds = (if cur' \<noteq> new' then (k', cur', new') # ds' else ds')"
    by (auto simp: a io_bind_cases split: sum.splits)
  show ?case using Cons.IH[OF d] by (auto simp: ds)
qed

lemma ensure_release_update_check:
  assumes name: "map_of (desired_params params) ''name'' = Some name"
      and rel: "fst (get_release c name) = Inr release" "truthy release"
      and ds: "fst (diff_settings release (desired_params params)) = Inr ds" "ds \<noteq> []"
      and ch: "describe_changes h ds = Inr changes"
      and df: "fst (prepare_diff_data h release (desired_params params)) = Inr d"
  shows "fst (ensure_release c h params True) =
           Inr \<lparr>changed = True, stdout_lines = changes, diff = Some d\<rparr>"
proof -
  have g: "get_release c name = (Inr release, snd (get_release c name))"
    using rel(1) by (simp add: prod_eq_iff)
  have d1: "diff_settings release (desired_params params) = io_return ds"
    using ds(1) by (intro pure_eq_return) simp_all
  have d2: "prepare_diff_data h release (desired_params params) = io_return d"
    using df by (intro pure_eq_return) simp_all
  have d5: "dict_getitem (desired_params params) ''name'' = io_return name"
    using name by (simp add: dict_getitem_def)
  show ?thesis
    unfolding ensure_release_def Let_def d5 io_bind_return
    apply (subst g)
    apply (simp add: rel(2) d1 ds(2) ch lift_def d2 io_return_def io_bind_cases)
    done
qed

text \<open>
  Claim C4. When the release exists, the differences are not empty and none of them has
  the key \<^verbatim>\<open>product_versions\<close>, the run without check mode calls \<^verbatim>\<open>edit_release\<close> with
  the differences followed by (product_versions, desired, desired), and makes no other
  call after the read of the release. In every run, each PUT that \<^verbatim>\<open>ensure_release\<close>
  makes carries a payload whose \<^verbatim>\<open>release\<close> has the key \<^verbatim>\<open>product_version_ids\<close>.
\<close>

theorem version_list_compensation:
  "(map_of (desired_params params) ''name'' = Some name \<and>
    fst (get_release c name) = Inr release \<and> truthy release \<and>
    fst (diff_settings release (desired_params params)) = Inr ds \<and> ds \<noteq> [] \<and>
    ''product_versions'' \<notin> fst ` set ds \<and>
    map_of (desired_params params) ''product_versions'' = Some pv \<and>
    describe_changes h ds = Inr changes \<and>
    fst (prepare_diff_data h release (desired_params params)) = Inr d \<and>
    fst (getitem release ''id'') = Inr release_id \<longrightarrow>
      snd (ensure_release c h params False) =
        snd (get_release c name) @
        snd (edit_release c release_id (ds @ [(''product_versions'', pv, pv)]))) \<and>
   (\<forall>path data. PUT path data \<in> set (snd (ensure_release c h params check_mode)) \<longrightarrow>
      (\<exists>dd rel ids. data = to_val dd \<and> map_of dd ''release'' = Some (to_val rel) \<and>
          map_of rel ''product_version_ids'' = Some ids))"
proof (intro conjI impI allI)
  assume a: "map_of (desired_params params) ''name'' = Some name \<and>
    fst (get_release c name) = Inr release \<and> truthy release \<and>
    fst (diff_settings release (desired_params params)) = Inr ds \<and> ds \<noteq> [] \<and>
    ''product_versions'' \<notin> fst ` set ds \<and>
    map_of (desired_params params) ''product_versions'' = Some pv \<and>
    describe_changes h ds = Inr changes \<and>
    fst (prepare_diff_data h release (desired_params params)) = Inr d \<and>
    fst (getitem release ''id'') = Inr release_id"
  then show "snd (ensure_release c h params False) =
        snd (get_release c name) @
        snd (edit_release c release_id (ds @ [(''product_versions'', pv, pv)]))"
    using ensure_release_update[of params name c release ds pv h changes d release_id]
    by simp
next
  fix path data
  assume "PUT path data \<in> set (snd (ensure_release c h params check_mode))"
  then obtain rid ds' where k: "''product_versions'' \<in> fst ` set ds'"
    and p: "PUT path data \<in> set (snd (edit_release c rid ds'))"
    using ensure_release_put by blast
  have "fst (api_data c (difference_params ds')) = Inr data"
    using p by (rule edit_release_put)
  moreover have "map_of (difference_params ds') ''product_versions'' \<noteq> None"
    using k by (simp only: map_of_difference_params)
  ultimately show "\<exists>dd rel ids. data = to_val dd \<and> map_of dd ''release'' = Some (to_val rel) \<and>
          map_of rel ''product_version_ids'' = Some ids"
    by (rule api_data_payload)
qed

text \<open>
  Claim C10. On an update where the entry for \<^verbatim>\<open>product_versions\<close> is added, the added
  entry is not among the computed differences; the lines of the result are
  \<^verbatim>\<open>describe_changes\<close> of the computed differences and the diff is \<^verbatim>\<open>prepare_diff_data\<close> of
  the release and the desired parameters, the same result as in check mode, where nothing
  is added; only \<^verbatim>\<open>edit_release\<close> receives the list with the added entry.
\<close>

theorem compensation_not_reported:
  assumes "map_of (desired_params params) ''name'' = Some name"
      and "fst (get_release c name) = Inr release" "truthy release"
      and "fst (diff_settings release (desired_params params)) = Inr ds" "ds \<noteq> []"
      and "''product_versions'' \<notin> fst ` set ds"
      and "map_of (desired_params params) ''product_versions'' = Some pv"
      and "describe_changes h ds = Inr changes"
      and "fst (prepare_diff_data h release (desired_params params)) = Inr d"
      and "fst (getitem release ''id'') = Inr release_id"
  shows "(''product_versions'', pv, pv) \<notin> set ds \<and>
         snd (ensure_release c h params False) =
           snd (get_release c name) @
           snd (edit_release c release_id (ds @ [(''product_versions'', pv, pv)])) \<and>
         (\<forall>r. fst (ensure_release c h params False) = Inr r \<longrightarrow>
              r = \<lparr>changed = True, stdout_lines = changes, diff = Some d\<rparr>) \<and>
         fst (ensure_release c h params True) =
           Inr \<lparr>changed = True, stdout_lines = changes, diff = Some d\<rparr>"
proof (intro conjI allI impI)
  show "(''product_versions'', pv, pv) \<notin> set ds"
    using assms(4) by (rule diff_settings_no_noop)
  note u = ensure_release_update[OF assms]
  show "snd (ensure_release c h params False) =
           snd (get_release c name) @
           snd (edit_release c release_id (ds @ [(''product_versions'', pv, pv)]))"
    by (simp add: u)
  show "r = \<lparr>changed = True, stdout_lines = changes, diff = Some d\<rparr>"
    if "fst (ensure_release c h params False) = Inr r" for r
    using that by (simp add: u split: sum.splits)
  show "fst (ensure_release c h params True) =
           Inr \<lparr>changed = True, stdout_lines = changes, diff = Some d\<rparr>"
    using assms(1-5,8,9) by (rule ensure_release_update_check)
qed

lemma example_update_facts:
  "map_of (desired_params example_params) ''name'' = Some (VStr ''rhceph-4.0'')"
  "fst (get_release (example_client [example_release_data]) (VStr ''rhceph-4.0'')) =
     Inr (to_val example_release)"
  "truthy (to_val example_release)"
  "fst (diff_settings (to_val example_release) (desired_params example_params)) =
     Inr [(''active'', VBool True, VBool False)]"
  "[(''active'', VBool True, VBool False)] \<noteq> []"
  "''product_versions'' \<notin> fst ` set [(''active'', VBool True, VBool False)]"
  "map_of (desired_params example_params) ''product_versions'' =
     Some (VList [VStr ''RHCEPH-4.0-RHEL-8''])"
  "describe_changes example_helpers [(''active'', VBool True, VBool False)] =
     Inr [Fmt ''changing %s from %s to %s'' [VStr ''active'', VBool True, VBool False]]"
  "fst (prepare_diff_data example_helpers (to_val example_release)
          (desired_params example_params)) =
     Inr (to_val [(''before'', to_val example_release),
                 (''after'', to_val (desired_params example_params))])"
  "fst (getitem (to_val example_release) ''id'') = Inr (VInt 7)"
  by (simp_all add: example_get_release example_release_def example_params_def
      desired_params_def example_helpers_def dict_getitem_def prepare_diff_data_def
      io_return_def lift_def io_bind_def)

theorem version_list_compensation_witness:
  "snd (ensure_release (example_client [example_release_data]) example_helpers
          example_params False) =
     snd (get_release (example_client [example_release_data]) (VStr ''rhceph-4.0'')) @
     snd (edit_release (example_client [example_release_data]) (VInt 7)
            ([(''active'', VBool True, VBool False)] @
             [(''product_versions'', VList [VStr ''RHCEPH-4.0-RHEL-8''],
               VList [VStr ''RHCEPH-4.0-RHEL-8''])])) \<and>
   snd (ensure_release (example_client [example_release_data]) example_helpers
          example_params False) =
     [GET (Fmt ''api/v1/releases'' []) [(''filter[name]'', VStr ''rhceph-4.0'')],
      GET (Fmt ''product_versions/%s.json'' [VStr ''RHCEPH-4.0-RHEL-8'']) [],
      PUT (Fmt ''api/v1/releases/%d'' [VInt 7])
        (to_val [(''release'', to_val [(''isactive'', VBool False),
                                     (''product_version_ids'', VList [VInt 929])])])]"
proof -
  note T = version_list_compensation[where params = example_params
      and c = "example_client [example_release_data]" and h = example_helpers
      and name = "VStr ''rhceph-4.0''" and release = "to_val example_release"
      and ds = "[(''active'', VBool True, VBool False)]"
      and pv = "VList [VStr ''RHCEPH-4.0-RHEL-8'']"
      and changes = "[Fmt ''changing %s from %s to %s''
                        [VStr ''active'', VBool True, VBool False]]"
      and d = "to_val [(''before'', to_val example_release),
                      (''after'', to_val (desired_params example_params))]"
      and release_id = "VInt 7" and check_mode = False]
  have "snd (ensure_release (example_client [example_release_data]) example_helpers
          example_params False) =
     snd (get_release (example_client [example_release_data]) (VStr ''rhceph-4.0'')) @
     snd (edit_release (example_client [example_release_data]) (VInt 7)
            ([(''active'', VBool True, VBool False)] @
             [(''product_versions'', VList [VStr ''RHCEPH-4.0-RHEL-8''],
               VList [VStr ''RHCEPH-4.0-RHEL-8''])]))"
    using T example_update_facts by blast
  then show ?thesis by (simp add: example_update_run)
qed

theorem compensation_not_reported_witness:
  "fst (ensure_release (example_client [example_release_data]) example_helpers
          example_params True) =
     Inr \<lparr>changed = True,
          stdout_lines = [Fmt ''changing %s from %s to %s''
                            [VStr ''active'', VBool True, VBool False]],
          diff = Some (to_val [(''before'', to_val example_release),
                              (''after'', to_val (desired_params example_params))])\<rparr> \<and>
   fst (ensure_release (example_client [example_release_data]) example_helpers
          example_params False) =
     Inr \<lparr>changed = True,
          stdout_lines = [Fmt ''changing %s from %s to %s''
                            [VStr ''active'', VBool True, VBool False]],
          diff = Some (to_val [(''before'', to_val example_release),
                              (''after'', to_val (desired_params example_params))])\<rparr> \<and>
   snd (ensure_release (example_client [example_release_data]) example_helpers
          example_params False) =
     snd (get_release (example_client [example_release_data]) (VStr ''rhceph-4.0'')) @
     snd (edit_release (example_client [example_release_data]) (VInt 7)
            ([(''active'', VBool True, VBool False)] @
             [(''product_versions'', VList [VStr ''RHCEPH-4.0-RHEL-8''],
               VList [VStr ''RHCEPH-4.0-RHEL-8''])]))"
proof -
  note T = compensation_not_reported[OF example_update_facts]
  obtain r where r: "fst (ensure_release (example_client [example_release_data])
      example_helpers example_params False) = Inr r"
    by (simp add: example_update_run)
  have "r = \<lparr>changed = True,
          stdout_lines = [Fmt ''changing %s from %s to %s''
                            [VStr ''active'', VBool True, VBool False]],
          diff = Some (to_val [(''before'', to_val example_release),
                              (''after'', to_val (desired_params example_params))])\<rparr>"
    using T r by blast
  with r T show ?thesis by blast
qed

section \<open>The unset convention of the rule set\<close>

lemma diff_settings_mem:
  "fst (diff_settings (VDict r) p) = Inr ds \<Longrightarrow>
     ((k, cur, new) \<in> set ds \<longleftrightarrow>
        (k, new) \<in> set p \<and> map_of r (VStr k) = Some cur \<and> cur \<noteq> new)"
proof (induction p arbitrary: ds)
  case Nil
  then show ?case by simp
next
  case (Cons a p)
  obtain k' new' where a: "a = (k', new')" by (cases a)
  from Cons.prems obtain cur' ds' where
    c: "map_of r (VStr k') = Some cur'" and d: "fst (diff_settings (VDict r) p) = Inr ds'"
    and ds: "ds = (if cur' \<noteq> new' then (k', cur', new') # ds' else ds')"
    by (auto simp: a io_bind_cases fst_py_getitem split: sum.splits option.splits)
  show ?case using Cons.IH[OF d] c by (auto simp: a ds)
qed

lemma map_of_filter_keep:
  "map_of xs k = Some v \<Longrightarrow> P (k, v) \<Longrightarrow> map_of (filter P xs) k = Some v"
  by (induction xs) (auto split: if_splits)

lemma desired_params_unset:
  assumes "map_of params ''state_machine_rule_set'' = Some (VStr [])"
  shows "map_of (desired_params params) ''state_machine_rule_set'' = Some VNone"
proof -
  have "map_of (filter (\<lambda>(param, val). val \<noteq> VNone) params) ''state_machine_rule_set'' =
          Some (VStr [])"
    using assms by (rule map_of_filter_keep) simp
  then show ?thesis by (simp add: desired_params_def)
qed

lemma desired_params_omitted:
  assumes "distinct (map fst params)"
      and "map_of params ''state_machine_rule_set'' = None \<or>
           map_of params ''state_machine_rule_set'' = Some VNone"
  shows "''state_machine_rule_set'' \<notin> fst ` set (desired_params params)"
proof -
  have "\<forall>v. (''state_machine_rule_set'', v) \<in> set params \<longrightarrow> v = VNone"
    using assms by (auto simp: map_of_eq_None_iff image_iff dest: map_of_SomeD eq_key_imp_eq_value)
  then have m: "''state_machine_rule_set'' \<notin>
      fst ` set (filter (\<lambda>(param, val). val \<noteq> VNone) params)"
    by auto
  then have n: "map_of (filter (\<lambda>(param, val). val \<noteq> VNone) params)
      ''state_machine_rule_set'' = None"
    by (simp add: map_of_eq_None_iff del: set_filter)
  have "desired_params params = filter (\<lambda>(param, val). val \<noteq> VNone) params"
    using n by (simp add: desired_params_def)
  with m show ?thesis by simp
qed

lemma desired_params_distinct:
  "distinct (map fst params) \<Longrightarrow> distinct (map fst (desired_params params))"
  by (simp add: desired_params_def Let_def dict_set_def distinct_update distinct_map_filter)

lemma desired_params_key:
  assumes "map_of params k = None" and "k \<noteq> ''state_machine_rule_set''"
  shows "map_of (desired_params params) k = None"
proof -
  have "map_of (filter (\<lambda>(param, val). val \<noteq> VNone) params) k = None"
    using assms(1) by (auto simp: map_of_eq_None_iff)
  then show ?thesis using assms(2) by (simp add: desired_params_def Let_def)
qed

lemma ensure_release_existing_check:
  assumes name: "map_of (desired_params params) ''name'' = Some name"
      and rel: "fst (get_release c name) = Inr release" "truthy release"
      and ds: "fst (diff_settings release (desired_params params)) = Inr ds"
  shows "fst (ensure_release c h params True) =
           (if ds = [] then Inr \<lparr>changed = False, stdout_lines = [], diff = None\<rparr>
            else (case describe_changes h ds of
                    Inl e \<Rightarrow> Inl e
                  | Inr changes \<Rightarrow>
                      (case fst (prepare_diff_data h release (desired_params params)) of
                         Inl e \<Rightarrow> Inl e
                       | Inr d \<Rightarrow> Inr \<lparr>changed = True, stdout_lines = changes, diff = Some d\<rparr>)))"
proof -
  have g: "get_release c name = (Inr release, snd (get_release c name))"
    using rel(1) by (simp add: prod_eq_iff)
  have d1: "diff_settings release (desired_params params) = io_return ds"
    using ds by (intro pure_eq_return) simp_all
  have d5: "dict_getitem (desired_params params) ''name'' = io_return name"
    using name by (simp add: dict_getitem_def)
  show ?thesis
    unfolding ensure_release_def Let_def d5 io_bind_return
    apply (subst g)
    apply (simp add: rel(2) d1 lift_def io_return_def io_bind_cases split: sum.splits)
    done
qed

lemma edit_release_has_put:
  assumes "fst (edit_release c rid ds) = Inr u"
  shows "\<exists>path data. PUT path data \<in> set (snd (edit_release c rid ds))"
proof (cases "fst (api_data c (difference_params ds))")
  case (Inl e)
  then show ?thesis using assms edit_release_fail[of c ds e rid] by simp
next
  case (Inr d)
  from assms Inr obtain path where path: "fst (format_d ''api/v1/releases/%d'' rid) = Inr path"
    by (cases "fst (format_d ''api/v1/releases/%d'' rid)")
      (auto simp: edit_release_def io_bind_cases)
  show ?thesis
    using edit_release_log[OF Inr, of rid] path by auto
qed

lemma ensure_release_existing_run:
  assumes name: "map_of (desired_params params) ''name'' = Some name"
      and rel: "fst (get_release c name) = Inr release" "truthy release"
      and ds: "fst (diff_settings release (desired_params params)) = Inr ds" "ds \<noteq> []"
      and run: "fst (ensure_release c h params False) = Inr r"
  shows "\<exists>path data. PUT path data \<in> set (snd (ensure_release c h params False))"
proof -
  have g: "get_release c name = (Inr release, snd (get_release c name))"
    using rel(1) by (simp add: prod_eq_iff)
  have d1: "diff_settings release (desired_params params) = io_return ds"
    using ds(1) by (intro pure_eq_return) simp_all
  have d5: "dict_getitem (desired_params params) ''name'' = io_return name"
    using name by (simp add: dict_getitem_def)
  show ?thesis
    using run unfolding ensure_release_def Let_def d5 io_bind_return
    apply (subst (asm) g)
    apply (subst g)
    apply (auto simp: rel(2) d1 ds(2) io_bind_cases split: sum.splits)
    apply (drule edit_release_has_put)
    apply blast
    done
qed

lemma ensure_release_put_differences:
  assumes name: "map_of (desired_params params) ''name'' = Some name"
      and rel: "fst (get_release c name) = Inr release"
      and ds: "fst (diff_settings release (desired_params params)) = Inr ds"
      and put: "PUT path data \<in> set (snd (ensure_release c h params cm))"
  shows "\<exists>rid ds'. (ds' = ds \<or> (\<exists>pv. ds' = ds @ [(''product_versions'', pv, pv)])) \<and>
           PUT path data \<in> set (snd (edit_release c rid ds'))"
proof -
  have g: "get_release c name = (Inr release, snd (get_release c name))"
    using rel(1) by (simp add: prod_eq_iff)
  have d1: "diff_settings release (desired_params params) = io_return ds"
    using ds(1) by (intro pure_eq_return) simp_all
  have d5: "dict_getitem (desired_params params) ''name'' = io_return name"
    using name by (simp add: dict_getitem_def)
  show ?thesis
    using put create_release_no_put[of path data c] get_release_no_put[of path data c name]
    unfolding ensure_release_def Let_def d5 io_bind_return
    apply (subst (asm) g)
    apply (auto simp: d1 io_bind_cases with_product_versions_def fst_dict_getitem
        split: sum.splits if_splits option.splits)
    done
qed

lemma difference_params_other:
  "k \<notin> fst ` set ds \<Longrightarrow>
     map_of (fold (\<lambda>(key, _, new). dict_set key new) ds acc) k = map_of acc k"
  by (induction ds arbitrary: acc) (auto split: prod.splits)

lemma difference_params_value_fold:
  "k \<in> fst ` set ds \<Longrightarrow> \<forall>cur new. (k, cur, new) \<in> set ds \<longrightarrow> new = v \<Longrightarrow>
     map_of (fold (\<lambda>(key, _, new). dict_set key new) ds acc) k = Some v"
proof (induction ds arbitrary: acc)
  case Nil
  then show ?case by simp
next
  case (Cons a ds)
  obtain k' c' n' where a: "a = (k', c', n')" by (cases a)
  show ?case
  proof (cases "k \<in> fst ` set ds")
    case True
    then show ?thesis using Cons.IH[OF True] Cons.prems(2) by (simp add: a)
  next
    case False
    then have "k' = k" "n' = v" using Cons.prems by (auto simp: a)
    then show ?thesis using difference_params_other[OF False] by (simp add: a)
  qed
qed

lemma difference_params_value:
  "k \<in> fst ` set ds \<Longrightarrow> \<forall>cur new. (k, cur, new) \<in> set ds \<longrightarrow> new = v \<Longrightarrow>
     map_of (difference_params ds) k = Some v"
  unfolding difference_params_def by (rule difference_params_value_fold)

lemma api_data_product_versions_keeps:
  "fst (api_data_product_versions c p) = Inr r \<Longrightarrow> k \<noteq> ''product_versions'' \<Longrightarrow>
     k \<noteq> ''product_version_ids'' \<Longrightarrow> map_of r k = map_of p k"
  by (auto simp: api_data_product_versions_def io_bind_cases fst_dict_pop dict_contains_def
      split: if_splits sum.splits option.splits)

lemma api_data_state_machine_rule_set_unsets:
  "fst (api_data_state_machine_rule_set c p) = Inr r \<Longrightarrow>
     map_of p ''state_machine_rule_set'' = Some v \<Longrightarrow> \<not> truthy v \<Longrightarrow>
     map_of r ''state_machine_rule_set_id'' = Some VNone"
  by (auto simp: api_data_state_machine_rule_set_def io_bind_cases fst_dict_pop
      dict_contains_def split: if_splits sum.splits option.splits)

lemma api_data_state_machine_rule_set_absent:
  "fst (api_data_state_machine_rule_set c p) = Inr r \<Longrightarrow>
     map_of p ''state_machine_rule_set'' = None \<Longrightarrow> r = p"
  by (auto simp: api_data_state_machine_rule_set_def dict_contains_def)

lemma api_data_steps:
  assumes "fst (api_data c p) = Inr data"
  obtains r1 r2 r3 r4 r5 r6 r7 dd where
    "fst (api_data_product c p) = Inr r1"
    "fst (api_data_program_manager c r1) = Inr r2"
    "fst (api_data_active r2) = Inr r3"
    "fst (api_data_supports_component_acl r3) = Inr r4"
    "fst (api_data_product_versions c r4) = Inr r5"
    "fst (api_data_state_machine_rule_set c r5) = Inr r6"
    "fst (api_data_blocker_flags r6) = Inr r7"
    "data = to_val dd" "map_of dd ''release'' = Some (to_val r7)"
proof -
  from assms obtain r1 r2 r3 r4 r5 r6 r7 where
    s1: "fst (api_data_product c p) = Inr r1" and
    s2: "fst (api_data_program_manager c r1) = Inr r2" and
    s3: "fst (api_data_active r2) = Inr r3" and
    s4: "fst (api_data_supports_component_acl r3) = Inr r4" and
    s5: "fst (api_data_product_versions c r4) = Inr r5" and
    s6: "fst (api_data_state_machine_rule_set c r5) = Inr r6" and
    s7: "fst (api_data_blocker_flags r6) = Inr r7" and
    fin: "fst (if dict_contains ''type'' p
       then io_bind (dict_getitem p ''type'') (\<lambda>t.
              io_return (to_val (dict_set ''type'' t [(''release'', to_val r7)])))
       else io_return (to_val [(''release'', to_val r7)])) = Inr data"
    unfolding api_data_def by (elim fst_io_bind_InrE)
  have "\<exists>dd. data = to_val dd \<and> map_of dd ''release'' = Some (to_val r7)"
    using fin by (auto simp: io_bind_cases fst_dict_getitem split: if_splits option.splits)
  then show ?thesis using s1 s2 s3 s4 s5 s6 s7 that by blast
qed

lemma api_data_unset_payload:
  assumes "fst (api_data c p) = Inr data"
      and "map_of p ''state_machine_rule_set'' = Some v" "\<not> truthy v"
  shows "\<exists>dd rel. data = to_val dd \<and> map_of dd ''release'' = Some (to_val rel) \<and>
           map_of rel ''state_machine_rule_set_id'' = Some VNone"
proof -
  from assms(1) obtain r1 r2 r3 r4 r5 r6 r7 dd where
    s1: "fst (api_data_product c p) = Inr r1" and
    s2: "fst (api_data_program_manager c r1) = Inr r2" and
    s3: "fst (api_data_active r2) = Inr r3" and
    s4: "fst (api_data_supports_component_acl r3) = Inr r4" and
    s5: "fst (api_data_product_versions c r4) = Inr r5" and
    s6: "fst (api_data_state_machine_rule_set c r5) = Inr r6" and
    s7: "fst (api_data_blocker_flags r6) = Inr r7" and
    dd: "data = to_val dd" "map_of dd ''release'' = Some (to_val r7)"
    by (rule api_data_steps)
  have "map_of r5 ''state_machine_rule_set'' = Some v"
    using assms(2) api_data_product_keeps[OF s1, of "''state_machine_rule_set''"]
      api_data_program_manager_keeps[OF s2, of "''state_machine_rule_set''"]
      api_data_active_keeps[OF s3, of "''state_machine_rule_set''"]
      api_data_supports_component_acl_keeps[OF s4, of "''state_machine_rule_set''"]
      api_data_product_versions_keeps[OF s5, of "''state_machine_rule_set''"]
    by simp
  then have "map_of r6 ''state_machine_rule_set_id'' = Some VNone"
    using s6 assms(3) api_data_state_machine_rule_set_unsets by blast
  then have "map_of r7 ''state_machine_rule_set_id'' = Some VNone"
    using api_data_blocker_flags_keeps[OF s7, of "''state_machine_rule_set_id''"] by simp
  with dd show ?thesis by blast
qed

lemma api_data_untouched_payload:
  assumes "fst (api_data c p) = Inr data"
      and "map_of p ''state_machine_rule_set'' = None"
      and "map_of p ''state_machine_rule_set_id'' = None"
  shows "\<exists>dd rel. data = to_val dd \<and> map_of dd ''release'' = Some (to_val rel) \<and>
           map_of rel ''state_machine_rule_set_id'' = None"
proof -
  from assms(1) obtain r1 r2 r3 r4 r5 r6 r7 dd where
    s1: "fst (api_data_product c p) = Inr r1" and
    s2: "fst (api_data_program_manager c r1) = Inr r2" and
    s3: "fst (api_data_active r2) = Inr r3" and
    s4: "fst (api_data_supports_component_acl r3) = Inr r4" and
    s5: "fst (api_data_product_versions c r4) = Inr r5" and
    s6: "fst (api_data_state_machine_rule_set c r5) = Inr r6" and
    s7: "fst (api_data_blocker_flags r6) = Inr r7" and
    dd: "data = to_val dd" "map_of dd ''release'' = Some (to_val r7)"
    by (rule api_data_steps)
  have k: "map_of r5 k = None"
    if "k = ''state_machine_rule_set'' \<or> k = ''state_machine_rule_set_id''" for k
    using that assms(2,3) api_data_product_keeps[OF s1, of k]
      api_data_program_manager_keeps[OF s2, of k]
      api_data_active_keeps[OF s3, of k]
      api_data_supports_component_acl_keeps[OF s4, of k]
      api_data_product_versions_keeps[OF s5, of k]
    by auto
  have "r6 = r5"
    using s6 k[of "''state_machine_rule_set''"] api_data_state_machine_rule_set_absent
    by blast
  then have "map_of r7 ''state_machine_rule_set_id'' = None"
    using k[of "''state_machine_rule_set_id''"]
      api_data_blocker_flags_keeps[OF s7, of "''state_machine_rule_set_id''"] by simp
  with dd show ?thesis by blast
qed


lemma ensure_release_existing_result:
  assumes name: "map_of (desired_params params) ''name'' = Some name"
      and rel: "fst (get_release c name) = Inr release" "truthy release"
      and ds: "fst (diff_settings release (desired_params params)) = Inr ds"
      and run: "fst (ensure_release c h params check_mode) = Inr r"
  shows "changed r = (ds \<noteq> []) \<and> (ds \<noteq> [] \<longrightarrow> describe_changes h ds = Inr (stdout_lines r)) \<and>
         (ds = [] \<longrightarrow> stdout_lines r = [])"
proof -
  have "fst (ensure_release c h params True) = Inr r"
    using run ensure_check_same[of c h params r] by (cases check_mode) simp_all
  then show ?thesis
    unfolding ensure_release_existing_check[OF name rel ds]
    by (auto split: if_splits sum.splits)
qed

lemma diff_settings_keys:
  assumes "fst (diff_settings (VDict r) p) = Inr ds" and "k \<in> fst ` set ds"
  shows "k \<in> fst ` set p"
proof -
  from assms(2) obtain cur new where "(k, cur, new) \<in> set ds" by auto
  then have "(k, new) \<in> set p" using diff_settings_mem[OF assms(1)] by blast
  then show ?thesis by force
qed

lemma unset_payload:
  assumes dist: "distinct (map fst params)"
      and unset: "map_of params ''state_machine_rule_set'' = Some (VStr [])"
      and ds: "fst (diff_settings (VDict release) (desired_params params)) = Inr ds"
      and mem: "(''state_machine_rule_set'', cur, VNone) \<in> set ds"
      and ds': "ds' = ds \<or> (\<exists>pv. ds' = ds @ [(''product_versions'', pv, pv)])"
      and put: "PUT path data \<in> set (snd (edit_release c rid ds'))"
  shows "\<exists>dd rel. data = to_val dd \<and> map_of dd ''release'' = Some (to_val rel) \<and>
           map_of rel ''state_machine_rule_set_id'' = Some VNone"
proof -
  have des: "map_of (desired_params params) ''state_machine_rule_set'' = Some VNone"
    using unset by (rule desired_params_unset)
  have d: "distinct (map fst (desired_params params))"
    using dist by (rule desired_params_distinct)
  have v: "new = VNone" if "(''state_machine_rule_set'', cur', new) \<in> set ds" for cur' new
  proof -
    have "(''state_machine_rule_set'', new) \<in> set (desired_params params)"
      using that diff_settings_mem[OF ds] by blast
    then have "map_of (desired_params params) ''state_machine_rule_set'' = Some new"
      using d by (simp add: map_of_is_SomeI)
    with des show ?thesis by simp
  qed
  have k: "''state_machine_rule_set'' \<in> fst ` set ds'"
    using mem ds' by force
  have "\<forall>cur' new. (''state_machine_rule_set'', cur', new) \<in> set ds' \<longrightarrow> new = VNone"
    using v ds' by auto
  with k have "map_of (difference_params ds') ''state_machine_rule_set'' = Some VNone"
    by (rule difference_params_value)
  moreover have "fst (api_data c (difference_params ds')) = Inr data"
    using put by (rule edit_release_put)
  ultimately show ?thesis
    using api_data_unset_payload[of c "difference_params ds'" data VNone] by simp
qed

lemma omitted_payload:
  assumes dist: "distinct (map fst params)"
      and omitted: "map_of params ''state_machine_rule_set'' = None \<or>
                    map_of params ''state_machine_rule_set'' = Some VNone"
      and nk: "''state_machine_rule_set_id'' \<notin> fst ` set params"
      and ds: "fst (diff_settings (VDict release) (desired_params params)) = Inr ds"
      and ds': "ds' = ds \<or> (\<exists>pv. ds' = ds @ [(''product_versions'', pv, pv)])"
      and put: "PUT path data \<in> set (snd (edit_release c rid ds'))"
  shows "\<exists>dd rel. data = to_val dd \<and> map_of dd ''release'' = Some (to_val rel) \<and>
           map_of rel ''state_machine_rule_set_id'' = None"
proof -
  have a: "''state_machine_rule_set'' \<notin> fst ` set ds"
    using desired_params_omitted[OF dist omitted] diff_settings_keys[OF ds] by blast
  have "map_of params ''state_machine_rule_set_id'' = None"
    using nk by (simp add: map_of_eq_None_iff)
  then have "map_of (desired_params params) ''state_machine_rule_set_id'' = None"
    by (rule desired_params_key) simp
  then have "''state_machine_rule_set_id'' \<notin> fst ` set (desired_params params)"
    by (simp add: map_of_eq_None_iff)
  then have b: "''state_machine_rule_set_id'' \<notin> fst ` set ds"
    using diff_settings_keys[OF ds] by blast
  have "''state_machine_rule_set'' \<notin> fst ` set ds'"
       "''state_machine_rule_set_id'' \<notin> fst ` set ds'"
    using a b ds' by auto
  then have "map_of (difference_params ds') ''state_machine_rule_set'' = None"
            "map_of (difference_params ds') ''state_machine_rule_set_id'' = None"
    using map_of_difference_params[of ds'] by blast+
  moreover have "fst (api_data c (difference_params ds')) = Inr data"
    using put by (rule edit_release_put)
  ultimately show ?thesis
    using api_data_untouched_payload[of c "difference_params ds'" data] by simp
qed

text \<open>
  Claim C3. In \<^verbatim>\<open>ensure_release\<close>, for a release that exists with a current rule set and
  a parameter dictionary with distinct keys: an empty string for
  \<^verbatim>\<open>state_machine_rule_set\<close> is turned into \<^verbatim>\<open>None\<close> after the \<^verbatim>\<open>None\<close> values have been
  dropped, so the field stays among the desired parameters; when the current value is
  not \<^verbatim>\<open>None\<close> the differences hold (state_machine_rule_set, current, None), the run
  reports changed with the lines of \<^verbatim>\<open>describe_changes\<close> for those differences, and the
  run without check mode that returns has made a PUT, every PUT carrying
  \<^verbatim>\<open>state_machine_rule_set_id\<close> set to \<^verbatim>\<open>None\<close>. When the field is absent or \<^verbatim>\<open>None\<close>, it
  is not among the desired parameters, no difference has its key whatever the current
  value is, the run reports changed only when another field differs, and no PUT
  carries \<^verbatim>\<open>state_machine_rule_set_id\<close>.
\<close>

theorem enum_unset_convention:
  assumes "distinct (map fst params)"
      and "map_of (desired_params params) ''name'' = Some name"
      and "fst (get_release c name) = Inr (VDict release)"
      and "py_lookup release (VStr ''state_machine_rule_set'') = Some cur"
      and "fst (diff_settings (VDict release) (desired_params params)) = Inr ds"
  shows "(map_of params ''state_machine_rule_set'' = Some (VStr []) \<and> cur \<noteq> VNone \<longrightarrow>
           map_of (desired_params params) ''state_machine_rule_set'' = Some VNone \<and>
           (''state_machine_rule_set'', cur, VNone) \<in> set ds \<and>
           fst (ensure_release c h params True) =
             (case describe_changes h ds of
                Inl e \<Rightarrow> Inl e
              | Inr changes \<Rightarrow>
                  (case fst (prepare_diff_data h (VDict release) (desired_params params)) of
                     Inl e \<Rightarrow> Inl e
                   | Inr d \<Rightarrow> Inr \<lparr>changed = True, stdout_lines = changes, diff = Some d\<rparr>)) \<and>
           (\<forall>r. fst (ensure_release c h params False) = Inr r \<longrightarrow>
              changed r \<and> describe_changes h ds = Inr (stdout_lines r) \<and>
              (\<exists>path data. PUT path data \<in> set (snd (ensure_release c h params False)))) \<and>
           (\<forall>path data. PUT path data \<in> set (snd (ensure_release c h params False)) \<longrightarrow>
              (\<exists>dd rel. data = to_val dd \<and> map_of dd ''release'' = Some (to_val rel) \<and>
                 map_of rel ''state_machine_rule_set_id'' = Some VNone))) \<and>
         (map_of params ''state_machine_rule_set'' = None \<or>
          map_of params ''state_machine_rule_set'' = Some VNone \<longrightarrow>
           ''state_machine_rule_set'' \<notin> fst ` set (desired_params params) \<and>
           ''state_machine_rule_set'' \<notin> fst ` set ds \<and>
           fst (ensure_release c h params True) =
             (if ds = [] then Inr \<lparr>changed = False, stdout_lines = [], diff = None\<rparr>
              else (case describe_changes h ds of
                Inl e \<Rightarrow> Inl e
              | Inr changes \<Rightarrow>
                  (case fst (prepare_diff_data h (VDict release) (desired_params params)) of
                     Inl e \<Rightarrow> Inl e
                   | Inr d \<Rightarrow> Inr \<lparr>changed = True, stdout_lines = changes, diff = Some d\<rparr>))) \<and>
           (\<forall>r. fst (ensure_release c h params False) = Inr r \<longrightarrow>
              changed r = (ds \<noteq> []) \<and>
              (ds \<noteq> [] \<longrightarrow> describe_changes h ds = Inr (stdout_lines r))) \<and>
           (''state_machine_rule_set_id'' \<notin> fst ` set params \<longrightarrow>
              (\<forall>path data. PUT path data \<in> set (snd (ensure_release c h params False)) \<longrightarrow>
                 (\<exists>dd rel. data = to_val dd \<and> map_of dd ''release'' = Some (to_val rel) \<and>
                    map_of rel ''state_machine_rule_set_id'' = None))))"
proof (intro conjI impI allI)
  have cur: "map_of release (VStr ''state_machine_rule_set'') = Some cur"
    using assms(4) by simp
  then have t: "truthy (VDict release)" by auto
  note chk = ensure_release_existing_check[OF assms(2,3) t assms(5), of h]
  note res = ensure_release_existing_result[OF assms(2,3) t assms(5), of h False]
  note puts = ensure_release_put_differences[OF assms(2,3,5), of _ _ h False]
  {
    assume u: "map_of params ''state_machine_rule_set'' = Some (VStr []) \<and> cur \<noteq> VNone"
    then have un: "map_of params ''state_machine_rule_set'' = Some (VStr [])" by simp
    show des: "map_of (desired_params params) ''state_machine_rule_set'' = Some VNone"
      using un by (rule desired_params_unset)
    then have "(''state_machine_rule_set'', VNone) \<in> set (desired_params params)"
      by (rule map_of_SomeD)
    then show mem: "(''state_machine_rule_set'', cur, VNone) \<in> set ds"
      using diff_settings_mem[OF assms(5)] cur u by blast
    then have ne: "ds \<noteq> []" by auto
    show "fst (ensure_release c h params True) =
             (case describe_changes h ds of
                Inl e \<Rightarrow> Inl e
              | Inr changes \<Rightarrow>
                  (case fst (prepare_diff_data h (VDict release) (desired_params params)) of
                     Inl e \<Rightarrow> Inl e
                   | Inr d \<Rightarrow> Inr \<lparr>changed = True, stdout_lines = changes, diff = Some d\<rparr>))"
      using chk ne by simp
    {
      fix r
      assume r: "fst (ensure_release c h params False) = Inr r"
      show "changed r" using res[OF r] ne by simp
      show "describe_changes h ds = Inr (stdout_lines r)" using res[OF r] ne by simp
      show "\<exists>path data. PUT path data \<in> set (snd (ensure_release c h params False))"
        using assms(2,3) t assms(5) ne r by (rule ensure_release_existing_run)
    }
    {
      fix path data
      assume "PUT path data \<in> set (snd (ensure_release c h params False))"
      then obtain rid ds' where
        "ds' = ds \<or> (\<exists>pv. ds' = ds @ [(''product_versions'', pv, pv)])"
        "PUT path data \<in> set (snd (edit_release c rid ds'))"
        using puts by blast
      with assms(1) un assms(5) mem
      show "\<exists>dd rel. data = to_val dd \<and> map_of dd ''release'' = Some (to_val rel) \<and>
                 map_of rel ''state_machine_rule_set_id'' = Some VNone"
        by (rule unset_payload)
    }
  }
  {
    assume om: "map_of params ''state_machine_rule_set'' = None \<or>
          map_of params ''state_machine_rule_set'' = Some VNone"
    show a: "''state_machine_rule_set'' \<notin> fst ` set (desired_params params)"
      using assms(1) om by (rule desired_params_omitted)
    then show "''state_machine_rule_set'' \<notin> fst ` set ds"
      using diff_settings_keys[OF assms(5)] by blast
    show "fst (ensure_release c h params True) =
             (if ds = [] then Inr \<lparr>changed = False, stdout_lines = [], diff = None\<rparr>
              else (case describe_changes h ds of
                Inl e \<Rightarrow> Inl e
              | Inr changes \<Rightarrow>
                  (case fst (prepare_diff_data h (VDict release) (desired_params params)) of
                     Inl e \<Rightarrow> Inl e
                   | Inr d \<Rightarrow> Inr \<lparr>changed = True, stdout_lines = changes, diff = Some d\<rparr>)))"
      by (rule chk)
    {
      fix r
      assume r: "fst (ensure_release c h params False) = Inr r"
      show "changed r = (ds \<noteq> [])" using res[OF r] by simp
      show "describe_changes h ds = Inr (stdout_lines r)" if "ds \<noteq> []"
        using res[OF r] that by simp
    }
    {
      fix path data
      assume nk: "''state_machine_rule_set_id'' \<notin> fst ` set params"
      assume "PUT path data \<in> set (snd (ensure_release c h params False))"
      then obtain rid ds' where
        "ds' = ds \<or> (\<exists>pv. ds' = ds @ [(''product_versions'', pv, pv)])"
        "PUT path data \<in> set (snd (edit_release c rid ds'))"
        using puts by blast
      with assms(1) om nk assms(5)
      show "\<exists>dd rel. data = to_val dd \<and> map_of dd ''release'' = Some (to_val rel) \<and>
                    map_of rel ''state_machine_rule_set_id'' = None"
        by (rule omitted_payload)
    }
  }
qed


lemma example_unset_run:
  "ensure_release (example_client [example_release_data]) example_helpers
     unset_rule_set_params False =
   (Inr \<lparr>changed = True,
         stdout_lines =
           [Fmt ''changing %s from %s to %s''
              [VStr ''state_machine_rule_set'', VStr ''Unrestricted'', VNone]],
         diff =
           Some (to_val
              [(''before'', to_val example_release),
               (''after'',
                to_val
                 [(''name'', VStr ''rhceph-4.0''),
                  (''product_versions'', VList [VStr ''RHCEPH-4.0-RHEL-8'']),
                  (''state_machine_rule_set'', VNone)])])\<rparr>,
    [GET (Fmt ''api/v1/releases'' []) [(''filter[name]'', VStr ''rhceph-4.0'')],
     GET (Fmt ''product_versions/%s.json'' [VStr ''RHCEPH-4.0-RHEL-8'']) [],
     PUT (Fmt ''api/v1/releases/%d'' [VInt 7])
       (to_val [(''release'', to_val [(''product_version_ids'', VList [VInt 929]),
                                    (''state_machine_rule_set_id'', VNone)])])])"
  by (simp add: eval_defs2 unset_rule_set_params_def)

lemma example_rule_set_facts:
  "fst (get_release (example_client [example_release_data]) (VStr ''rhceph-4.0'')) =
     Inr (VDict (map (\<lambda>(k, v). (VStr k, v)) example_release))"
  "py_lookup (map (\<lambda>(k, v). (VStr k, v)) example_release) (VStr ''state_machine_rule_set'') =
     Some (VStr ''Unrestricted'')"
  "distinct (map fst unset_rule_set_params)"
  "map_of (desired_params unset_rule_set_params) ''name'' = Some (VStr ''rhceph-4.0'')"
  "fst (diff_settings (VDict (map (\<lambda>(k, v). (VStr k, v)) example_release))
          (desired_params unset_rule_set_params)) =
     Inr [(''state_machine_rule_set'', VStr ''Unrestricted'', VNone)]"
  "distinct (map fst omitted_rule_set_params)"
  "map_of (desired_params omitted_rule_set_params) ''name'' = Some (VStr ''rhceph-4.0'')"
  "fst (diff_settings (VDict (map (\<lambda>(k, v). (VStr k, v)) example_release))
          (desired_params omitted_rule_set_params)) = Inr []"
  by (simp_all add: example_get_release[unfolded to_val_def] example_release_def
      unset_rule_set_params_def omitted_rule_set_params_def desired_params_def dict_set_def
      py_getitem_def io_return_def io_bind_def)

theorem enum_unset_convention_witness:
  "fst (ensure_release (example_client [example_release_data]) example_helpers
          unset_rule_set_params True) =
     Inr \<lparr>changed = True,
          stdout_lines =
            [Fmt ''changing %s from %s to %s''
               [VStr ''state_machine_rule_set'', VStr ''Unrestricted'', VNone]],
          diff =
            Some (to_val
               [(''before'', to_val example_release),
                (''after'',
                 to_val
                  [(''name'', VStr ''rhceph-4.0''),
                   (''product_versions'', VList [VStr ''RHCEPH-4.0-RHEL-8'']),
                   (''state_machine_rule_set'', VNone)])])\<rparr> \<and>
   (\<exists>path dd rel.
       PUT path (to_val dd) \<in> set (snd (ensure_release (example_client [example_release_data])
                                          example_helpers unset_rule_set_params False)) \<and>
       map_of dd ''release'' = Some (to_val rel) \<and>
       map_of rel ''state_machine_rule_set_id'' = Some VNone) \<and>
   ''state_machine_rule_set'' \<notin> fst ` set (desired_params omitted_rule_set_params) \<and>
   fst (ensure_release (example_client [example_release_data]) example_helpers
          omitted_rule_set_params True) =
     Inr \<lparr>changed = False, stdout_lines = [], diff = None\<rparr>"
proof -
  let ?c = "example_client [example_release_data]"
  have u: "map_of unset_rule_set_params ''state_machine_rule_set'' = Some (VStr []) \<and>
           VStr ''Unrestricted'' \<noteq> VNone"
    by (simp add: unset_rule_set_params_def)
  have om: "map_of omitted_rule_set_params ''state_machine_rule_set'' = None \<or>
            map_of omitted_rule_set_params ''state_machine_rule_set'' = Some VNone"
    by (simp add: omitted_rule_set_params_def)
  note A = enum_unset_convention[OF example_rule_set_facts(3,4,1,2,5), of example_helpers,
      THEN conjunct1, THEN mp, OF u]
  note B = enum_unset_convention[OF example_rule_set_facts(6,7,1,2,8), of example_helpers,
      THEN conjunct2, THEN mp, OF om]
  have a: "fst (ensure_release ?c example_helpers unset_rule_set_params True) =
     Inr \<lparr>changed = True,
          stdout_lines =
            [Fmt ''changing %s from %s to %s''
               [VStr ''state_machine_rule_set'', VStr ''Unrestricted'', VNone]],
          diff =
            Some (to_val
               [(''before'', to_val example_release),
                (''after'',
                 to_val
                  [(''name'', VStr ''rhceph-4.0''),
                   (''product_versions'', VList [VStr ''RHCEPH-4.0-RHEL-8'']),
                   (''state_machine_rule_set'', VNone)])])\<rparr>"
    unfolding A[THEN conjunct2, THEN conjunct2, THEN conjunct1]
    by (simp add: example_helpers_def prepare_diff_data_def desired_params_def
        unset_rule_set_params_def dict_getitem_def dict_set_def lift_def io_return_def
        io_bind_def to_val_def)
  obtain r where r: "fst (ensure_release ?c example_helpers unset_rule_set_params False) = Inr r"
    by (simp add: example_unset_run)
  have "\<exists>path data. PUT path data \<in>
      set (snd (ensure_release ?c example_helpers unset_rule_set_params False))"
    using A r by blast
  then have b: "\<exists>path dd rel.
       PUT path (to_val dd) \<in> set (snd (ensure_release ?c example_helpers
                                          unset_rule_set_params False)) \<and>
       map_of dd ''release'' = Some (to_val rel) \<and>
       map_of rel ''state_machine_rule_set_id'' = Some VNone"
    using A by blast
  have c: "''state_machine_rule_set'' \<notin> fst ` set (desired_params omitted_rule_set_params)"
    using B by blast
  have d: "fst (ensure_release ?c example_helpers omitted_rule_set_params True) =
     Inr \<lparr>changed = False, stdout_lines = [], diff = None\<rparr>"
    unfolding B[THEN conjunct2, THEN conjunct2, THEN conjunct1] by simp
  show ?thesis using a b c d by blast
qed
end
